theory Spec2Isabelle
  imports Main "HOL-Library.Word"
begin

unbundle bit_operations_syntax

section \<open>Constants of optixProgressivePhotonMap.cpp\<close>

text \<open>
  \<open>unsigned int\<close> is a 32-bit word and \<open>unsigned long long\<close> a 64-bit word; arithmetic on
  them wraps. Sizes handed to the ray-tracing runtime (\<open>RTsize\<close>) are read as naturals.
\<close>

type_synonym u32 = "32 word"
type_synonym u64 = "64 word"

definition SAMPLE_NAME :: string where
  "SAMPLE_NAME = ''optixProgressivePhotonMap''"

definition WIDTH :: u32 where
  "WIDTH = 768"

definition HEIGHT :: u32 where
  "HEIGHT = 768"

definition MAX_PHOTON_COUNT :: u32 where
  "MAX_PHOTON_COUNT = 2"

definition photon_launch_dim :: u32 where
  "photon_launch_dim = 512"

text \<open>\<open>enum ProgramEnum { rtpass, ppass, gather, NUM_PROGRAMS }\<close>\<close>

definition rtpass :: nat where
  "rtpass = 0"

definition ppass :: nat where
  "ppass = 1"

definition gather :: nat where
  "gather = 2"

definition NUM_PROGRAMS :: nat where
  "NUM_PROGRAMS = 3"

section \<open>Helper functions\<close>

text \<open>
  \<open>pow2roundup\<close>, line by line: \<open>--x\<close>, five times \<open>x |= x >> k\<close>, \<open>return x+1\<close>.
\<close>

definition pow2roundup :: "u32 \<Rightarrow> u32" where
  "pow2roundup x0 =
     (let x = x0 - 1;
          x = x OR drop_bit 1 x;
          x = x OR drop_bit 2 x;
          x = x OR drop_bit 4 x;
          x = x OR drop_bit 8 x;
          x = x OR drop_bit 16 x
      in x + 1)"

text \<open>The value of \<open>x\<close> in \<open>pow2roundup\<close> after the five shift-or lines, started at \<open>y\<close>.\<close>

definition smear :: "u32 \<Rightarrow> u32" where
  "smear y =
     (let x = y;
          x = x OR drop_bit 1 x;
          x = x OR drop_bit 2 x;
          x = x OR drop_bit 4 x;
          x = x OR drop_bit 8 x;
          x = x OR drop_bit 16 x
      in x)"

text \<open>
  The integer that line 501 casts to float:
  \<open>(unsigned long long)accumulation_frame*photon_launch_dim*photon_launch_dim\<close>. The cast binds
  first, so both multiplications are 64-bit.
\<close>

definition total_emitted :: "u32 \<Rightarrow> u64" where
  "total_emitted accumulation_frame =
     ucast accumulation_frame * ucast photon_launch_dim * ucast photon_launch_dim"

text \<open>The same product had it been formed in \<open>unsigned int\<close>, for comparison.\<close>

definition total_emitted_u32 :: "u32 \<Rightarrow> u32" where
  "total_emitted_u32 accumulation_frame =
     accumulation_frame * photon_launch_dim * photon_launch_dim"

section \<open>What the host sees of the platform\<close>

text \<open>
  Values fixed outside this file and taken as parameters: the directories reported by sutil, the
  sizes of the structures of ppm.h, and the answers of \<open>rtDeviceGetAttribute\<close> (result code,
  then the two compute-capability numbers) and of \<open>glewInit\<close>.
\<close>

record platform =
  samplesPTXDir :: string
  samplesDir :: string
  sizeof_HitRecord :: nat
  sizeof_PhotonRecord :: nat
  sizeof_PPMLight :: nat
  device_count :: nat
  compute_capability :: "nat \<Rightarrow> nat \<times> int \<times> int"
  glew_ok :: bool

definition ptxPath :: "platform \<Rightarrow> string \<Rightarrow> string" where
  "ptxPath pf cuda_file =
     samplesPTXDir pf @ ''/'' @ SAMPLE_NAME @ ''_generated_'' @ cuda_file @ ''.ptx''"

section \<open>The ray-tracing context as the host drives it\<close>

text \<open>
  Floating-point values are kept symbolic: a literal of the source, or the cast of an integer.
\<close>

datatype fval = FLit string | FOfU32 u32 | FOfU64 u64

datatype rt_format = RT_FORMAT_FLOAT4 | RT_FORMAT_USER | RT_FORMAT_UNSIGNED_INT2

datatype rt_buffertype =
  RT_BUFFER_INPUT | RT_BUFFER_OUTPUT | RT_BUFFER_INPUT_OUTPUT | RT_BUFFER_GPU_LOCAL

record buffer =
  buf_type :: "rt_buffertype list"
  buf_format :: rt_format
  buf_size :: "nat list"
  buf_element_size :: "nat option"
  buf_pbo :: bool

record program =
  prog_ptx :: string
  prog_name :: string

datatype variable =
    VUint u32
  | VFloat fval
  | VFloat3 fval fval fval
  | VBuffer nat
  | VUserData nat
  | VTextureSampler string
  | VGeometryGroup string

text \<open>
  Calls that act on a buffer or start device work are logged in the order the host issues them.
  Buffers are named by handle, the index at which the buffer was created.
\<close>

datatype event =
    Launch nat nat nat
  | MapBuffer nat
  | WriteBuffer nat nat
  | UnmapBuffer nat
  | ResizeBuffer nat nat nat
  | DisplayBufferGL nat
  | WriteBufferToFile string nat
  | LoadObj string
  | Validate
  | Destroy

record rt_context =
  devices :: "nat list"
  ray_type_count :: nat
  entry_point_count :: nat
  stack_size :: nat
  vars :: "string \<rightharpoonup> variable"
  buffers :: "buffer list"
  ray_generation_program :: "nat \<rightharpoonup> program"
  exception_program :: "nat \<rightharpoonup> program"
  miss_program :: "nat \<rightharpoonup> program"
  api_log :: "event list"

record material =
  closest_hit_program :: "nat \<rightharpoonup> program"
  any_hit_program :: "nat \<rightharpoonup> program"

definition Context_create :: rt_context where
  "Context_create =
     \<lparr>devices = [], ray_type_count = 0, entry_point_count = 0, stack_size = 0,
      vars = Map.empty, buffers = [], ray_generation_program = Map.empty,
      exception_program = Map.empty, miss_program = Map.empty, api_log = []\<rparr>"

definition set_var :: "string \<Rightarrow> variable \<Rightarrow> rt_context \<Rightarrow> rt_context" where
  "set_var name v c = c\<lparr>vars := (vars c)(name \<mapsto> v)\<rparr>"

definition log_event :: "event \<Rightarrow> rt_context \<Rightarrow> rt_context" where
  "log_event e c = c\<lparr>api_log := api_log c @ [e]\<rparr>"

definition createBuffer ::
  "rt_buffertype list \<Rightarrow> rt_format \<Rightarrow> nat list \<Rightarrow> rt_context \<Rightarrow> nat \<times> rt_context" where
  "createBuffer t f dims c =
     (length (buffers c),
      c\<lparr>buffers := buffers c @
         [\<lparr>buf_type = t, buf_format = f, buf_size = dims,
           buf_element_size = None, buf_pbo = False\<rparr>]\<rparr>)"

text \<open>
  Modelled from the spec: \<open>sutil::createOutputBuffer\<close> is not part of this file. Among the
  device buffers the host allocates, this one is taken to be an output buffer of the format and
  size the call asks for, backed by a GL buffer object when \<open>use_pbo\<close> is set.
\<close>

definition createOutputBuffer ::
  "rt_format \<Rightarrow> nat \<Rightarrow> nat \<Rightarrow> bool \<Rightarrow> rt_context \<Rightarrow> nat \<times> rt_context" where
  "createOutputBuffer f w h use_pbo c =
     (length (buffers c),
      c\<lparr>buffers := buffers c @
         [\<lparr>buf_type = [RT_BUFFER_OUTPUT], buf_format = f, buf_size = [w, h],
           buf_element_size = None, buf_pbo = use_pbo\<rparr>]\<rparr>)"

definition setElementSize :: "nat \<Rightarrow> nat \<Rightarrow> rt_context \<Rightarrow> rt_context" where
  "setElementSize b n c =
     c\<lparr>buffers := (buffers c)[b := (buffers c ! b)\<lparr>buf_element_size := Some n\<rparr>]\<rparr>"

text \<open>\<open>context[name]->getBuffer()\<close>: the runtime throws when the variable holds no buffer.\<close>

definition getBuffer :: "rt_context \<Rightarrow> string \<Rightarrow> nat option" where
  "getBuffer c name = (case vars c name of Some (VBuffer b) \<Rightarrow> Some b | _ \<Rightarrow> None)"

text \<open>
  \<open>map()\<close>, the loop storing \<open>n\<close> values of \<open>random2u()\<close> through the mapped pointer, \<open>unmap()\<close>.
\<close>

definition fill_seeds :: "nat \<Rightarrow> nat \<Rightarrow> rt_context \<Rightarrow> rt_context" where
  "fill_seeds b n c = c\<lparr>api_log := api_log c @ [MapBuffer b, WriteBuffer b n, UnmapBuffer b]\<rparr>"

definition createProgramFromPTXFile :: "string \<Rightarrow> string \<Rightarrow> program" where
  "createProgramFromPTXFile ptx_path name = \<lparr>prog_ptx = ptx_path, prog_name = name\<rparr>"

definition setRayGenerationProgram :: "nat \<Rightarrow> program \<Rightarrow> rt_context \<Rightarrow> rt_context" where
  "setRayGenerationProgram i p c =
     c\<lparr>ray_generation_program := (ray_generation_program c)(i \<mapsto> p)\<rparr>"

definition setExceptionProgram :: "nat \<Rightarrow> program \<Rightarrow> rt_context \<Rightarrow> rt_context" where
  "setExceptionProgram i p c = c\<lparr>exception_program := (exception_program c)(i \<mapsto> p)\<rparr>"

definition setMissProgram :: "nat \<Rightarrow> program \<Rightarrow> rt_context \<Rightarrow> rt_context" where
  "setMissProgram i p c = c\<lparr>miss_program := (miss_program c)(i \<mapsto> p)\<rparr>"

definition launch :: "nat \<Rightarrow> nat \<Rightarrow> nat \<Rightarrow> rt_context \<Rightarrow> rt_context" where
  "launch entry w h c = log_event (Launch entry w h) c"

text \<open>
  The loop of \<open>createContext\<close> over the devices 1, 2, ...: the first device whose compute
  capability equals that of device 0 is chosen, 0 when there is none; a failing query throws.
\<close>

fun find_device :: "(nat \<Rightarrow> nat \<times> int \<times> int) \<Rightarrow> int \<times> int \<Rightarrow> nat list \<Rightarrow> nat + nat" where
  "find_device q computeCaps [] = Inr 0"
| "find_device q computeCaps (index # rest) =
     (case q index of (code, computeCapsB) \<Rightarrow>
        if code \<noteq> 0 then Inl code
        else if computeCaps = computeCapsB then Inr index
        else find_device q computeCaps rest)"

text \<open>\<open>createContext\<close>; \<open>Inl code\<close> is the exception made from a failing device query.\<close>

definition createContext :: "platform \<Rightarrow> bool \<Rightarrow> nat + rt_context" where
  "createContext pf use_pbo =
    (case compute_capability pf 0 of (code, computeCaps) \<Rightarrow>
     if code \<noteq> 0 then Inl code
     else case find_device (compute_capability pf) computeCaps [1..<device_count pf] of
       Inl code' \<Rightarrow> Inl code'
     | Inr deviceId \<Rightarrow>
       let c = Context_create;
           c = c\<lparr>devices := [deviceId]\<rparr>;
           c = c\<lparr>ray_type_count := 3\<rparr>;
           c = c\<lparr>entry_point_count := NUM_PROGRAMS\<rparr>;
           c = c\<lparr>stack_size := 800\<rparr>;
           c = set_var ''max_depth'' (VUint 3) c;
           c = set_var ''max_photon_count'' (VUint MAX_PHOTON_COUNT) c;
           c = set_var ''scene_epsilon'' (VFloat (FLit ''1.e-1f'')) c;
           c = set_var ''alpha'' (VFloat (FLit ''0.7f'')) c;
           c = set_var ''total_emitted'' (VFloat (FLit ''0.0f'')) c;
           c = set_var ''frame_number'' (VFloat (FLit ''0.0f'')) c;
           c = set_var ''use_debug_buffer'' (VUint 0) c;
           (buffer, c) = createOutputBuffer RT_FORMAT_FLOAT4 (unat WIDTH) (unat HEIGHT) use_pbo c;
           c = set_var ''output_buffer'' (VBuffer buffer) c;
           (debug_buffer, c) =
              createBuffer [RT_BUFFER_OUTPUT] RT_FORMAT_FLOAT4 [unat WIDTH, unat HEIGHT] c;
           c = set_var ''debug_buffer'' (VBuffer debug_buffer) c;
           (rtpass_buffer, c) =
              createBuffer [RT_BUFFER_OUTPUT] RT_FORMAT_USER [unat WIDTH, unat HEIGHT] c;
           c = setElementSize rtpass_buffer (sizeof_HitRecord pf) c;
           c = set_var ''rtpass_output_buffer'' (VBuffer rtpass_buffer) c;
           (image_rnd_seeds, c) =
              createBuffer [RT_BUFFER_INPUT_OUTPUT, RT_BUFFER_GPU_LOCAL] RT_FORMAT_UNSIGNED_INT2
                [unat WIDTH, unat HEIGHT] c;
           c = set_var ''image_rnd_seeds'' (VBuffer image_rnd_seeds) c;
           c = fill_seeds image_rnd_seeds (unat (WIDTH * HEIGHT)) c;
           ptx_path = ptxPath pf ''ppm_rtpass.cu'';
           c = setRayGenerationProgram rtpass
                 (createProgramFromPTXFile ptx_path ''rtpass_camera'') c;
           c = setExceptionProgram rtpass
                 (createProgramFromPTXFile ptx_path ''rtpass_exception'') c;
           c = set_var ''rtpass_bad_color'' (VFloat3 (FLit ''0.0f'') (FLit ''1.0f'') (FLit ''0.0f'')) c;
           c = setMissProgram rtpass (createProgramFromPTXFile ptx_path ''rtpass_miss'') c;
           c = set_var ''rtpass_bg_color''
                 (VFloat3 (FLit ''0.34f'') (FLit ''0.55f'') (FLit ''0.85f'')) c;
           num_photons = photon_launch_dim * photon_launch_dim * MAX_PHOTON_COUNT;
           (ppass_buffer, c) = createBuffer [RT_BUFFER_OUTPUT] RT_FORMAT_USER [unat num_photons] c;
           c = setElementSize ppass_buffer (sizeof_PhotonRecord pf) c;
           c = set_var ''ppass_output_buffer'' (VBuffer ppass_buffer) c;
           ptx_path = ptxPath pf ''ppm_ppass.cu'';
           c = setRayGenerationProgram ppass
                 (createProgramFromPTXFile ptx_path ''ppass_camera'') c;
           (photon_rnd_seeds, c) =
              createBuffer [RT_BUFFER_INPUT] RT_FORMAT_UNSIGNED_INT2
                [unat photon_launch_dim, unat photon_launch_dim] c;
           c = fill_seeds photon_rnd_seeds (unat (photon_launch_dim * photon_launch_dim)) c;
           c = set_var ''photon_rnd_seeds'' (VBuffer photon_rnd_seeds) c;
           ptx_path = ptxPath pf ''ppm_gather.cu'';
           c = setRayGenerationProgram gather (createProgramFromPTXFile ptx_path ''gather'') c;
           c = setExceptionProgram gather
                 (createProgramFromPTXFile ptx_path ''gather_exception'') c;
           photon_map_size = pow2roundup num_photons - 1;
           (photon_map, c) = createBuffer [RT_BUFFER_INPUT] RT_FORMAT_USER [unat photon_map_size] c;
           c = setElementSize photon_map (sizeof_PhotonRecord pf) c;
           c = set_var ''photon_map'' (VBuffer photon_map) c
       in Inr c)"

definition createMaterial :: "platform \<Rightarrow> material" where
  "createMaterial pf =
     (let closest_hit1 =
            createProgramFromPTXFile (ptxPath pf ''ppm_rtpass.cu'') ''rtpass_closest_hit'';
          closest_hit2 =
            createProgramFromPTXFile (ptxPath pf ''ppm_ppass.cu'') ''ppass_closest_hit'';
          any_hit = createProgramFromPTXFile (ptxPath pf ''ppm_gather.cu'') ''gather_any_hit'';
          m = \<lparr>closest_hit_program = Map.empty, any_hit_program = Map.empty\<rparr>;
          m = m\<lparr>closest_hit_program := (closest_hit_program m)(0 \<mapsto> closest_hit1)\<rparr>;
          m = m\<lparr>closest_hit_program := (closest_hit_program m)(1 \<mapsto> closest_hit2)\<rparr>;
          m = m\<lparr>any_hit_program := (any_hit_program m)(2 \<mapsto> any_hit)\<rparr>
      in m)"

text \<open>
  \<open>createGeometry\<close>: the mesh is loaded by \<open>PpmObjLoader\<close>, outside this file, into a new
  geometry group; the loader is taken to act on the objects it creates only. The material
  argument is used only inside \<open>#if 0\<close>.
\<close>

definition createGeometry :: "platform \<Rightarrow> material \<Rightarrow> rt_context \<Rightarrow> rt_context" where
  "createGeometry pf m c =
     (let full_path = samplesDir pf @ ''/data/wedding-band.obj'';
          c = log_event (LoadObj full_path) c;
          c = set_var ''top_object'' (VGeometryGroup full_path) c;
          c = set_var ''top_shadower'' (VGeometryGroup full_path) c
      in c)"

text \<open>\<open>createLight\<close>; the fields of the light are floating-point and are not modelled.\<close>

definition createLight :: "platform \<Rightarrow> rt_context \<Rightarrow> rt_context" where
  "createLight pf c =
     (let c = set_var ''light'' (VUserData (sizeof_PPMLight pf)) c;
          c = set_var ''rtpass_default_radius2'' (VFloat (FLit ''0.25f'')) c;
          c = set_var ''ambient_light'' (VFloat3 (FLit ''0.1f'') (FLit ''0.1f'') (FLit ''0.1f'')) c;
          full_path = samplesDir pf @ ''/data/CedarCity.hdr'';
          c = set_var ''envmap'' (VTextureSampler full_path) c
      in c)"

section \<open>Callbacks and the display loop\<close>

text \<open>
  The state the loop and the callbacks share: the global context, the two counters of
  \<open>glfwRun\<close> (the callbacks reach \<open>accumulation_frame\<close> through \<open>CallbackData\<close>), and what has
  been written to \<open>std::cerr\<close>. The context is not null while the loop runs, so the tests
  \<open>if( context )\<close> succeed.
\<close>

text \<open>What this file writes to the error stream.\<close>

datatype message =
    RequiresArgument string
  | UnknownOption string
  | Usage string
  | SavingFrame string
  | GlewInitFailed
  | RuntimeError

record app =
  ctx :: rt_context
  frame_count :: u32
  accumulation_frame :: u32
  cerr :: "message list"

text \<open>How an execution stops early: \<open>exit(status)\<close>, or an exception of the runtime.\<close>

datatype stop = Exited int | Thrown

text \<open>Constants of GLFW/glfw3.h and cstdlib.\<close>

definition GLFW_PRESS :: int where
  "GLFW_PRESS = 1"

definition GLFW_KEY_Q :: int where
  "GLFW_KEY_Q = 81"

definition GLFW_KEY_ESCAPE :: int where
  "GLFW_KEY_ESCAPE = 256"

definition GLFW_KEY_S :: int where
  "GLFW_KEY_S = 83"

definition GLFW_KEY_F :: int where
  "GLFW_KEY_F = 70"

definition EXIT_SUCCESS :: int where
  "EXIT_SUCCESS = 0"

definition EXIT_FAILURE :: int where
  "EXIT_FAILURE = 1"

text \<open>
  The events GLFW delivers to the two callbacks of this file while \<open>glfwPollEvents\<close> runs:
  a key event (key, scancode, action, mods), and a window-size event (w, h) together with the
  answer \<open>camera.resize\<close> gives when it is asked.
\<close>

datatype glfw_event = Key int int int int | WindowSize int int bool

text \<open>
  \<open>keyCallback\<close>. Q and Escape destroy the context and the window and call \<open>exit\<close>; S reports
  the file name on \<open>std::cerr\<close> and then writes the output buffer to that file; F re-centres the
  camera and resets the counter; every other event is forwarded to the GUI.
\<close>

definition keyCallback :: "int \<Rightarrow> int \<Rightarrow> app \<Rightarrow> stop \<times> app + app" where
  "keyCallback key action a =
     (if action = GLFW_PRESS \<and> (key = GLFW_KEY_Q \<or> key = GLFW_KEY_ESCAPE) then
        Inl (Exited EXIT_SUCCESS, a\<lparr>ctx := log_event Destroy (ctx a)\<rparr>)
      else if action = GLFW_PRESS \<and> key = GLFW_KEY_S then
        (let outputImage = SAMPLE_NAME @ ''.png'';
             a = a\<lparr>cerr := cerr a @ [SavingFrame outputImage]\<rparr>
         in case getBuffer (ctx a) ''output_buffer'' of
              None \<Rightarrow> Inl (Thrown, a)
            | Some b \<Rightarrow> Inr (a\<lparr>ctx := log_event (WriteBufferToFile outputImage b) (ctx a)\<rparr>))
      else if action = GLFW_PRESS \<and> key = GLFW_KEY_F then
        Inr (a\<lparr>accumulation_frame := 0\<rparr>)
      else Inr a)"

text \<open>
  Modelled from the spec: \<open>sutil::resizeBuffer\<close> is not part of this file; it is taken to set
  the size of the buffer it is handed and to leave every other buffer alone.
\<close>

definition resizeBuffer :: "nat \<Rightarrow> nat \<Rightarrow> nat \<Rightarrow> rt_context \<Rightarrow> rt_context" where
  "resizeBuffer b w h c =
     log_event (ResizeBuffer b w h)
       (c\<lparr>buffers := (buffers c)[b := (buffers c ! b)\<lparr>buf_size := [w, h]\<rparr>]\<rparr>)"

text \<open>The buffers named, looked up and resized one after the other; \<open>Inl\<close> when a lookup throws.\<close>

fun resize_named :: "string list \<Rightarrow> nat \<Rightarrow> nat \<Rightarrow> rt_context \<Rightarrow> rt_context + rt_context" where
  "resize_named [] w h c = Inr c"
| "resize_named (name # names) w h c =
     (case getBuffer c name of
        None \<Rightarrow> Inl c
      | Some b \<Rightarrow> resize_named names w h (resizeBuffer b w h c))"

definition windowSizeCallback :: "int \<Rightarrow> int \<Rightarrow> bool \<Rightarrow> app \<Rightarrow> stop \<times> app + app" where
  "windowSizeCallback w h camera_resize a =
     (if w < 0 \<or> h < 0 then Inr a
      else
        let width = nat w;
            height = nat h;
            a = (if camera_resize then a\<lparr>accumulation_frame := 0\<rparr> else a)
        in case resize_named
                  [''output_buffer'', ''debug_buffer'', ''rtpass_output_buffer'', ''image_rnd_seeds'']
                  width height (ctx a) of
             Inl c \<Rightarrow> Inl (Thrown, a\<lparr>ctx := c\<rparr>)
           | Inr c \<Rightarrow> Inr (a\<lparr>ctx := c\<rparr>))"

fun dispatch :: "glfw_event \<Rightarrow> app \<Rightarrow> stop \<times> app + app" where
  "dispatch (Key key scancode action mods) a = keyCallback key action a"
| "dispatch (WindowSize w h camera_resize) a = windowSizeCallback w h camera_resize a"

fun glfwPollEvents :: "glfw_event list \<Rightarrow> app \<Rightarrow> stop \<times> app + app" where
  "glfwPollEvents [] a = Inr a"
| "glfwPollEvents (e # es) a =
     (case dispatch e a of
        Inl s \<Rightarrow> Inl s
      | Inr a' \<Rightarrow> glfwPollEvents es a')"

text \<open>
  What one iteration of the loop receives from outside: the events pending at \<open>glfwPollEvents\<close>,
  the GUI's \<open>WantCaptureMouse\<close>, the answer of \<open>camera.process_mouse\<close> (asked only when the GUI
  does not capture the mouse), and the camera's width and height.
\<close>

record frame_input =
  events :: "glfw_event list"
  WantCaptureMouse :: bool
  process_mouse :: bool
  camera_width :: nat
  camera_height :: nat

text \<open>The body of the \<open>while\<close> loop of \<open>glfwRun\<close>, lines 448 to 516.\<close>

definition glfwRun_body :: "frame_input \<Rightarrow> app \<Rightarrow> stop \<times> app + app" where
  "glfwRun_body inp a0 =
    (case glfwPollEvents (events inp) a0 of
       Inl s \<Rightarrow> Inl s
     | Inr a1 \<Rightarrow>
       let a = (if \<not> WantCaptureMouse inp \<and> process_mouse inp
                then a1\<lparr>accumulation_frame := 0\<rparr> else a1);
           a = a\<lparr>frame_count := frame_count a + 1\<rparr>;
           c = set_var ''frame_number'' (VFloat (FOfU32 (accumulation_frame a))) (ctx a);
           a = a\<lparr>accumulation_frame := accumulation_frame a + 1\<rparr>;
           c = (if accumulation_frame a = 1
                then set_var ''total_emitted'' (VFloat (FLit ''0.0f''))
                       (launch rtpass (camera_width inp) (camera_height inp) c)
                else c)
       in case getBuffer c ''photon_rnd_seeds'' of
            None \<Rightarrow> Inl (Thrown, a\<lparr>ctx := c\<rparr>)
          | Some photon_rnd_seeds \<Rightarrow>
            let c = fill_seeds photon_rnd_seeds (unat (photon_launch_dim * photon_launch_dim)) c;
                c = launch ppass (unat photon_launch_dim) (unat photon_launch_dim) c;
                c = set_var ''total_emitted''
                      (VFloat (FOfU64 (total_emitted (accumulation_frame a)))) c;
                c = launch gather (camera_width inp) (camera_height inp) c
            in case getBuffer c ''output_buffer'' of
                 None \<Rightarrow> Inl (Thrown, a\<lparr>ctx := c\<rparr>)
               | Some b \<Rightarrow> Inr (a\<lparr>ctx := log_event (DisplayBufferGL b) c\<rparr>))"

text \<open>
  The loop runs one iteration for each element of the list: the window asks to close when the
  list is used up.
\<close>

fun glfwRun_loop :: "frame_input list \<Rightarrow> app \<Rightarrow> stop \<times> app + app" where
  "glfwRun_loop [] a = Inr a"
| "glfwRun_loop (inp # inps) a =
     (case glfwRun_body inp a of
        Inl s \<Rightarrow> Inl s
      | Inr a' \<Rightarrow> glfwRun_loop inps a')"

definition glfwRun :: "frame_input list \<Rightarrow> rt_context \<Rightarrow> stop \<times> app + app" where
  "glfwRun inps c =
     (case glfwRun_loop inps
             \<lparr>ctx = c, frame_count = 0, accumulation_frame = 0, cerr = []\<rparr> of
        Inl s \<Rightarrow> Inl s
      | Inr a \<Rightarrow> Inr (a\<lparr>ctx := log_event Destroy (ctx a)\<rparr>))"

section \<open>Main\<close>

record options =
  use_pbo :: bool
  out_file :: string
  mesh_files :: "string list"

text \<open>
  \<open>printUsageAndExit\<close>: the usage text goes to the error stream after what is already there,
  then \<open>exit(1)\<close>. The result is the error stream and the exit status.
\<close>

definition printUsageAndExit :: "string \<Rightarrow> message list \<Rightarrow> message list \<times> int" where
  "printUsageAndExit argv0 err = (err @ [Usage argv0], 1)"

text \<open>
  The \<open>for\<close> loop of \<open>main\<close> over \<open>argv[1]\<close>, ..., \<open>argv[argc-1]\<close>. \<open>i == argc-1\<close> says that no
  argument follows; \<open>out_file = argv[++i]\<close> takes the next argument and steps over it.
  \<open>begins_with_dash\<close> is \<open>arg[0] == '-'\<close>, where \<open>arg[0]\<close> of an empty argument is the
  terminating zero.
\<close>

definition begins_with_dash :: "string \<Rightarrow> bool" where
  "begins_with_dash arg = (case arg of [] \<Rightarrow> False | ch # _ \<Rightarrow> ch = CHR ''-'')"

fun parse_args :: "string \<Rightarrow> string list \<Rightarrow> options \<Rightarrow> message list \<times> int + options" where
  "parse_args argv0 [] opts = Inr opts"
| "parse_args argv0 (arg # rest) opts =
     (if arg = ''-h'' \<or> arg = ''--help'' then Inl (printUsageAndExit argv0 [])
      else if arg = ''-f'' \<or> arg = ''--file'' then
        (case rest of
           [] \<Rightarrow> Inl (printUsageAndExit argv0 [RequiresArgument arg])
         | file # rest' \<Rightarrow> parse_args argv0 rest' (opts\<lparr>out_file := file\<rparr>))
      else if arg = ''-n'' \<or> arg = ''--nopbo'' then parse_args argv0 rest (opts\<lparr>use_pbo := False\<rparr>)
      else if begins_with_dash arg then
        Inl (printUsageAndExit argv0 [UnknownOption arg])
      else parse_args argv0 rest (opts\<lparr>mesh_files := mesh_files opts @ [arg]\<rparr>))"

definition initial_options :: options where
  "initial_options = \<lparr>use_pbo = True, out_file = [], mesh_files = []\<rparr>"

text \<open>
  Lines 601 to 616 of \<open>main\<close>: the context, then material, geometry and light, then
  \<open>validate\<close>. The camera belongs to sutil; what it answers is part of \<open>frame_input\<close>.
\<close>

definition main_setup :: "platform \<Rightarrow> bool \<Rightarrow> nat + rt_context" where
  "main_setup pf pbo =
     (case createContext pf pbo of
        Inl code \<Rightarrow> Inl code
      | Inr c \<Rightarrow>
          let material = createMaterial pf;
              c = createGeometry pf material c;
              c = createLight pf c;
              c = log_event Validate c
          in Inr c)"

text \<open>
  How a run of \<open>main\<close> ends: the exit status, the error stream written by this file, whether
  \<open>glfwInitialize\<close> was reached, and the context once the set-up has completed.
\<close>

record outcome =
  status :: int
  stderr :: "message list"
  window :: bool
  final :: "rt_context option"

text \<open>
  \<open>main\<close>. \<open>SUTIL_CATCH\<close> belongs to sutil: it is taken to report the exception and exit with
  status 1. With an output file named, nothing is rendered (batch mode is a TODO).
\<close>

definition main :: "platform \<Rightarrow> string \<Rightarrow> string list \<Rightarrow> frame_input list \<Rightarrow> outcome" where
  "main pf argv0 args inps =
     (case parse_args argv0 args initial_options of
        Inl (err, st) \<Rightarrow> \<lparr>status = st, stderr = err, window = False, final = None\<rparr>
      | Inr opts \<Rightarrow>
          if \<not> glew_ok pf then
            \<lparr>status = EXIT_FAILURE, stderr = [GlewInitFailed], window = True, final = None\<rparr>
          else
            (case main_setup pf (use_pbo opts) of
               Inl code \<Rightarrow> \<lparr>status = 1, stderr = [RuntimeError], window = True, final = None\<rparr>
             | Inr c \<Rightarrow>
                 if out_file opts = [] then
                   (case glfwRun inps c of
                      Inl (Exited st, a) \<Rightarrow>
                        \<lparr>status = st, stderr = cerr a, window = True, final = Some (ctx a)\<rparr>
                    | Inl (Thrown, a) \<Rightarrow>
                        \<lparr>status = 1, stderr = cerr a @ [RuntimeError], window = True,
                         final = Some (ctx a)\<rparr>
                    | Inr a \<Rightarrow>
                        \<lparr>status = 0, stderr = cerr a, window = True, final = Some (ctx a)\<rparr>)
                 else \<lparr>status = 0, stderr = [], window = True, final = Some c\<rparr>))"

section \<open>Notions used to state the properties\<close>

text \<open>The states in which an iteration of the display loop can start.\<close>

inductive reachable :: "platform \<Rightarrow> bool \<Rightarrow> app \<Rightarrow> bool" for pf :: platform and pbo :: bool where
  start: "main_setup pf pbo = Inr c \<Longrightarrow>
            reachable pf pbo \<lparr>ctx = c, frame_count = 0, accumulation_frame = 0, cerr = []\<rparr>"
| frame: "reachable pf pbo a \<Longrightarrow> glfwRun_body inp a = Inr a' \<Longrightarrow> reachable pf pbo a'"

text \<open>A press of Q or Escape.\<close>

fun quit_key :: "glfw_event \<Rightarrow> bool" where
  "quit_key (Key key scancode action mods) =
     (action = GLFW_PRESS \<and> (key = GLFW_KEY_Q \<or> key = GLFW_KEY_ESCAPE))"
| "quit_key (WindowSize w h r) = False"

text \<open>An event whose callback sets \<open>accumulation_frame\<close> to 0.\<close>

fun reset_event :: "glfw_event \<Rightarrow> bool" where
  "reset_event (Key key scancode action mods) = (action = GLFW_PRESS \<and> key = GLFW_KEY_F)"
| "reset_event (WindowSize w h r) = (0 \<le> w \<and> 0 \<le> h \<and> r)"

definition resets :: "frame_input \<Rightarrow> bool" where
  "resets inp \<longleftrightarrow>
     list_ex reset_event (events inp) \<or> (\<not> WantCaptureMouse inp \<and> process_mouse inp)"

fun is_launch :: "event \<Rightarrow> bool" where
  "is_launch (Launch entry w h) = True"
| "is_launch e = False"

text \<open>The host maps buffer \<open>b\<close>, stores into it, or hands it to a routine that reads it.\<close>

fun touches :: "nat \<Rightarrow> event \<Rightarrow> bool" where
  "touches b (MapBuffer b') = (b' = b)"
| "touches b (WriteBuffer b' n) = (b' = b)"
| "touches b (UnmapBuffer b') = (b' = b)"
| "touches b (DisplayBufferGL b') = (b' = b)"
| "touches b (WriteBufferToFile file b') = (b' = b)"
| "touches b e = False"


text \<open>
  The event concerns no buffer, or maps and fills one of the two seed buffers (created fourth
  and sixth), or hands the output buffer (created first) to a routine that reads it.
\<close>

fun seeds_or_output :: "event \<Rightarrow> bool" where
  "seeds_or_output (MapBuffer b) = (b = 3 \<or> b = 5)"
| "seeds_or_output (WriteBuffer b n) = (b = 3 \<or> b = 5)"
| "seeds_or_output (UnmapBuffer b) = (b = 3 \<or> b = 5)"
| "seeds_or_output (DisplayBufferGL b) = (b = 0)"
| "seeds_or_output (WriteBufferToFile file b) = (b = 0)"
| "seeds_or_output e = True"

text \<open>
  The number of iterations run since the loop started or, if the counter was reset since, from
  the last iteration that reset it on; \<open>k\<close> is the number before the iterations listed.
\<close>

fun frames_since_reset :: "nat \<Rightarrow> frame_input list \<Rightarrow> nat" where
  "frames_since_reset k [] = k"
| "frames_since_reset k (inp # inps) =
     frames_since_reset (if resets inp then 1 else k + 1) inps"


text \<open>The options \<open>main\<close> knows.\<close>

definition known_option :: "string \<Rightarrow> bool" where
  "known_option arg \<longleftrightarrow>
     arg \<in> set [''-h'', ''--help'', ''-f'', ''--file'', ''-n'', ''--nopbo'']"

text \<open>The buffer a context variable names.\<close>

definition named_buffer :: "rt_context \<Rightarrow> string \<Rightarrow> buffer option" where
  "named_buffer c name =
     (case getBuffer c name of
        None \<Rightarrow> None
      | Some b \<Rightarrow> if b < length (buffers c) then Some (buffers c ! b) else None)"

text \<open>
  The variables of \<open>createContext\<close> name the seven buffers in the order of their creation.
\<close>

definition bound :: "rt_context \<Rightarrow> bool" where
  "bound c \<longleftrightarrow>
     getBuffer c ''output_buffer'' = Some 0 \<and>
     getBuffer c ''debug_buffer'' = Some 1 \<and>
     getBuffer c ''rtpass_output_buffer'' = Some 2 \<and>
     getBuffer c ''image_rnd_seeds'' = Some 3 \<and>
     getBuffer c ''ppass_output_buffer'' = Some 4 \<and>
     getBuffer c ''photon_rnd_seeds'' = Some 5 \<and>
     getBuffer c ''photon_map'' = Some 6 \<and>
     length (buffers c) = 7"


text \<open>A platform with a single device, to run the model on.\<close>

definition platform1 :: platform where
  "platform1 =
     \<lparr>samplesPTXDir = ''ptx'', samplesDir = ''samples'', sizeof_HitRecord = 48,
      sizeof_PhotonRecord = 52, sizeof_PPMLight = 72, device_count = 1,
      compute_capability = (\<lambda>i. (0, 6, 1)), glew_ok = True\<rparr>"

text \<open>
  The context \<open>createContext\<close> returns on that platform, the state in which the loop starts
  there, a frame without events, and a frame in which Q is pressed.
\<close>

definition created1 :: rt_context where
  "created1 = (case createContext platform1 True of Inr c \<Rightarrow> c | Inl code \<Rightarrow> Context_create)"

definition context1 :: rt_context where
  "context1 = (case main_setup platform1 True of Inr c \<Rightarrow> c | Inl code \<Rightarrow> Context_create)"

definition app1 :: app where
  "app1 = \<lparr>ctx = context1, frame_count = 0, accumulation_frame = 0, cerr = []\<rparr>"

definition idle_frame :: frame_input where
  "idle_frame =
     \<lparr>events = [], WantCaptureMouse = False, process_mouse = False,
      camera_width = 768, camera_height = 768\<rparr>"

text \<open>
  The state after \<open>2^32\<close> frames without events from the start of the loop, and the state one
  more such frame later.
\<close>

definition wrapped_app :: app where
  "wrapped_app =
     (case glfwRun_loop (replicate (2 ^ 32) idle_frame) app1 of
        Inr a \<Rightarrow> a
      | Inl s \<Rightarrow> app1)"

definition wrapped_next :: app where
  "wrapped_next =
     (case glfwRun_body idle_frame wrapped_app of
        Inr a \<Rightarrow> a
      | Inl s \<Rightarrow> wrapped_app)"

definition quit_frame :: frame_input where
  "quit_frame =
     \<lparr>events = [Key GLFW_KEY_Q 0 GLFW_PRESS 0], WantCaptureMouse = False,
      process_mouse = False, camera_width = 768, camera_height = 768\<rparr>"

section \<open>pow2roundup\<close>

lemma smear_step:
  fixes a y :: "'a::len word"
  assumes "\<And>n. bit a n \<longleftrightarrow> (\<exists>d<k. bit y (n + d))"
  shows "bit (a OR drop_bit k a) n \<longleftrightarrow> (\<exists>d<2*k. bit y (n + d))"
proof -
  have "bit (a OR drop_bit k a) n \<longleftrightarrow> bit a n \<or> bit a (k + n)"
    by (simp add: bit_or_iff bit_drop_bit_eq)
  also have "\<dots> \<longleftrightarrow> (\<exists>d<k. bit y (n + d)) \<or> (\<exists>d<k. bit y (k + n + d))"
    by (simp add: assms)
  also have "\<dots> \<longleftrightarrow> (\<exists>d<2*k. bit y (n + d))"
  proof
    assume "(\<exists>d<k. bit y (n + d)) \<or> (\<exists>d<k. bit y (k + n + d))"
    then show "\<exists>d<2*k. bit y (n + d)"
    proof
      assume "\<exists>d<k. bit y (n + d)"
      then obtain d where "d < k" "bit y (n + d)" by blast
      then show ?thesis by (intro exI [of _ d]) simp
    next
      assume "\<exists>d<k. bit y (k + n + d)"
      then obtain d where "d < k" "bit y (k + n + d)" by blast
      then show ?thesis by (intro exI [of _ "k + d"]) (simp add: ac_simps)
    qed
  next
    assume "\<exists>d<2*k. bit y (n + d)"
    then obtain d where d: "d < 2 * k" "bit y (n + d)" by blast
    show "(\<exists>d<k. bit y (n + d)) \<or> (\<exists>d<k. bit y (k + n + d))"
    proof (cases "d < k")
      case True with d show ?thesis by blast
    next
      case False
      with d have "d - k < k" "bit y (k + n + (d - k))" by (simp_all add: ac_simps)
      then show ?thesis by blast
    qed
  qed
  finally show ?thesis .
qed

lemma bit_le_nat: "bit (n::nat) m \<Longrightarrow> 2 ^ m \<le> n"
proof (rule ccontr)
  assume b: "bit n m" and "\<not> 2 ^ m \<le> n"
  then have "n div 2 ^ m = 0" by simp
  with b show False by (simp add: bit_iff_odd)
qed

lemma top_bit_nat: "2 ^ k \<le> (n::nat) \<Longrightarrow> n < 2 ^ Suc k \<Longrightarrow> bit n k"
proof -
  assume "2 ^ k \<le> n" "n < 2 ^ Suc k"
  then have "n div 2 ^ k = 1" by (intro div_nat_eqI) simp_all
  then show ?thesis by (simp add: bit_iff_odd)
qed

lemma bit_unat_word: "bit (unat (w::'a::len word)) m \<longleftrightarrow> bit w m"
  using bit_unsigned_iff by fastforce

lemma bitlen_ex: "0 < (n::nat) \<Longrightarrow> \<exists>k. 2 ^ k \<le> n \<and> n < 2 ^ Suc k"
  using ex_power_ivl1 [of 2 n] by simp

lemma pow2roundup_smear: "pow2roundup x = smear (x - 1) + 1"
  by (simp add: pow2roundup_def smear_def Let_def)

text \<open>After the five shift-or lines, bit \<open>n\<close> is set exactly when some bit at or above \<open>n\<close> was.\<close>

lemma bit_smear: "bit (smear y) n \<longleftrightarrow> (\<exists>m\<ge>n. bit y m)"
proof -
  have s0: "\<And>n. bit y n \<longleftrightarrow> (\<exists>d<1. bit y (n + d))" by simp
  note s1 = smear_step [of y 1 y, OF s0]
  note s2 = smear_step [of "y OR drop_bit 1 y" "2 * 1" y, OF s1]
  note s3 = smear_step [OF s2]
  note s4 = smear_step [OF s3]
  note s5 = smear_step [OF s4]
  have "bit (smear y) n \<longleftrightarrow> (\<exists>d<32. bit y (n + d))"
    using s5 [of n] by (simp add: smear_def Let_def)
  also have "\<dots> \<longleftrightarrow> (\<exists>m\<ge>n. bit y m)"
  proof
    assume "\<exists>d<32. bit y (n + d)"
    then show "\<exists>m\<ge>n. bit y m" by (metis le_add1)
  next
    assume "\<exists>m\<ge>n. bit y m"
    then obtain m where m: "n \<le> m" "bit y m" by blast
    then have "m < 32" using bit_imp_le_length [of y m] by simp
    with m have "m - n < 32" "bit y (n + (m - n))" by simp_all
    then show "\<exists>d<32. bit y (n + d)" by blast
  qed
  finally show ?thesis .
qed

lemma smear_mask:
  assumes "2 ^ k \<le> unat y" "unat y < 2 ^ Suc k"
  shows "smear y = mask (Suc k)"
proof (rule bit_word_eqI)
  fix n assume n: "n < LENGTH(32)"
  have top: "bit y k" using top_bit_nat [OF assms] by (simp add: bit_unat_word)
  have "(\<exists>m\<ge>n. bit y m) \<longleftrightarrow> n < Suc k"
  proof
    assume "\<exists>m\<ge>n. bit y m"
    then obtain m where m: "n \<le> m" "bit y m" by blast
    then have "2 ^ m \<le> unat y" using bit_le_nat [of "unat y" m] by (simp add: bit_unat_word)
    with assms(2) have "(2::nat) ^ m < 2 ^ Suc k" by linarith
    then have "m < Suc k"
      by (simp only: power_strict_increasing_iff one_less_numeral_iff semiring_norm)
    with m show "n < Suc k" by simp
  next
    assume "n < Suc k"
    with top show "\<exists>m\<ge>n. bit y m" by (intro exI [of _ k]) simp
  qed
  with n show "bit (smear y) n \<longleftrightarrow> bit (mask (Suc k) :: u32) n"
    by (simp add: bit_smear bit_mask_iff)
qed

lemma unat_pow2: "n < 32 \<Longrightarrow> unat ((2::u32) ^ n) = 2 ^ n"
proof -
  assume n: "n < 32"
  have "unat ((2::u32) ^ n) = unat (word_of_nat (2 ^ n) :: u32)" by simp
  also have "\<dots> = 2 ^ n mod 2 ^ 32" by (simp only: unat_of_nat) simp
  also have "\<dots> = 2 ^ n"
    using n
    by (intro mod_less) (simp only: power_strict_increasing_iff one_less_numeral_iff semiring_norm)
  finally show ?thesis .
qed

lemma pow2roundup_exact:
  assumes "2 ^ k \<le> unat (x - 1)" "unat (x - 1) < 2 ^ Suc k"
  shows "pow2roundup x = 2 ^ Suc k"
  by (simp only: pow2roundup_smear smear_mask [OF assms] mask_eq_exp_minus_1) simp

lemma pow2roundup_one: "pow2roundup 1 = 1"
  by (simp add: pow2roundup_def)

lemma pow2roundup_zero: "pow2roundup 0 = 0"
  by (simp add: pow2roundup_def)

lemma pow2roundup_large:
  assumes "2 ^ 31 < unat x"
  shows "pow2roundup x = 0"
proof -
  have x1: "1 \<le> x" using assms by (simp add: word_le_nat_alt)
  have u: "unat (x - 1) = unat x - 1" using unat_sub [OF x1] by simp
  have lo: "2 ^ 31 \<le> unat (x - 1)" using assms u by simp
  have hi: "unat (x - 1) < 2 ^ Suc 31" using unsigned_less [of "x - 1"] by simp
  have "pow2roundup x = 2 ^ Suc 31" using lo hi by (rule pow2roundup_exact)
  then show ?thesis by simp
qed

text \<open>
  Claim C8. For every 32-bit \<open>x\<close> with \<open>1 \<le> x \<le> 2^31\<close>, \<open>pow2roundup x\<close> is a power of two that
  is at least \<open>x\<close>, and it is the smallest one: every power of two that is at least \<open>x\<close> is at
  least the result. For \<open>x = 0\<close> and for every \<open>x > 2^31\<close> the result is 0.
\<close>

theorem pow2roundup_spec:
  fixes x :: u32
  shows "(1 \<le> unat x \<and> unat x \<le> 2 ^ 31 \<longrightarrow>
           (\<exists>k. unat (pow2roundup x) = 2 ^ k \<and> unat x \<le> 2 ^ k \<and>
                (\<forall>j. unat x \<le> 2 ^ j \<longrightarrow> (2::nat) ^ k \<le> 2 ^ j)))
       \<and> (x = 0 \<or> 2 ^ 31 < unat x \<longrightarrow> pow2roundup x = 0)"
proof (intro conjI impI)
  assume r: "1 \<le> unat x \<and> unat x \<le> 2 ^ 31"
  then have x1: "1 \<le> x" by (simp add: word_le_nat_alt)
  have u: "unat (x - 1) = unat x - 1" using unat_sub [OF x1] by simp
  show "\<exists>k. unat (pow2roundup x) = 2 ^ k \<and> unat x \<le> 2 ^ k \<and>
             (\<forall>j. unat x \<le> 2 ^ j \<longrightarrow> (2::nat) ^ k \<le> 2 ^ j)"
  proof (cases "unat x = 1")
    case True
    then have "x = 1" by (metis unat_1 word_unat_eq_iff)
    then have "unat (pow2roundup x) = 2 ^ 0" by (simp add: pow2roundup_one)
    moreover have "unat x \<le> 2 ^ 0" using True by simp
    moreover have "\<forall>j. unat x \<le> 2 ^ j \<longrightarrow> (2::nat) ^ 0 \<le> 2 ^ j" by simp
    ultimately show ?thesis by blast
  next
    case False
    with r u have pos: "0 < unat (x - 1)" by simp
    from bitlen_ex [OF pos] obtain k
      where k: "2 ^ k \<le> unat (x - 1)" "unat (x - 1) < 2 ^ Suc k" by blast
    from k(1) r u have "(2::nat) ^ k < 2 ^ 31" by arith
    then have k31: "k < 31"
      by (simp only: power_strict_increasing_iff one_less_numeral_iff semiring_norm)
    have "pow2roundup x = 2 ^ Suc k" using k by (rule pow2roundup_exact)
    then have a: "unat (pow2roundup x) = 2 ^ Suc k"
      using k31 unat_pow2 [of "Suc k"] by (simp del: power_Suc)
    have b: "unat x \<le> 2 ^ Suc k" using k(2) u r by arith
    have c: "\<forall>j. unat x \<le> 2 ^ j \<longrightarrow> (2::nat) ^ Suc k \<le> 2 ^ j"
    proof (intro allI impI)
      fix j assume "unat x \<le> 2 ^ j"
      with k(1) u r have "(2::nat) ^ k < 2 ^ j" by arith
      then have "k < j"
        by (simp only: power_strict_increasing_iff one_less_numeral_iff semiring_norm)
      then have "Suc k \<le> j" by simp
      then show "(2::nat) ^ Suc k \<le> 2 ^ j" by (rule power_increasing) simp
    qed
    from a b c show ?thesis by blast
  qed
next
  assume "x = 0 \<or> 2 ^ 31 < unat x"
  then show "pow2roundup x = 0"
    using pow2roundup_zero pow2roundup_large by blast
qed

theorem pow2roundup_spec_witness:
  "(\<exists>k. unat (pow2roundup 5) = 2 ^ k \<and> (5::nat) \<le> 2 ^ k \<and>
        (\<forall>j. (5::nat) \<le> 2 ^ j \<longrightarrow> (2::nat) ^ k \<le> 2 ^ j))
   \<and> pow2roundup 0 = 0 \<and> pow2roundup (2 ^ 31 + 1) = 0"
  using pow2roundup_spec [of 5] pow2roundup_spec [of 0] pow2roundup_spec [of "2 ^ 31 + 1"]
  by simp

section \<open>The photon count handed to the device\<close>

lemma unat_ucast_u32_u64: "unat (ucast (w :: u32) :: u64) = unat w"
proof -
  have "unat w < 2 ^ 32" using unsigned_less [of w] by simp
  then have "unat w < 2 ^ 64" by simp
  then show ?thesis by (simp add: unsigned_ucast_eq take_bit_nat_eq_self)
qed

lemma unat_total_emitted: "unat (total_emitted af) = unat af * 512 * 512"
proof -
  have lt: "unat af < 2 ^ 32" using unsigned_less [of af] by simp
  have "unat (total_emitted af) = 262144 * unat af mod 2 ^ 64"
    by (simp add: total_emitted_def photon_launch_dim_def unat_word_ariths unat_ucast_u32_u64 mod_simps)
  also have "\<dots> = 262144 * unat af" using lt by simp
  finally show ?thesis by simp
qed

section \<open>Context creation, callbacks and event polling\<close>

lemmas ctx_ops = set_var_def log_event_def createBuffer_def createOutputBuffer_def
  setElementSize_def fill_seeds_def createProgramFromPTXFile_def setRayGenerationProgram_def
  setExceptionProgram_def setMissProgram_def launch_def Context_create_def

lemma createContext_bound:
  assumes "createContext pf pbo = Inr c"
  shows "bound c"
  using assms
  by (auto simp: bound_def getBuffer_def createContext_def Let_def ctx_ops
      split: prod.splits sum.splits if_splits)

lemma createContext_log:
  assumes "createContext pf pbo = Inr c"
  shows "api_log c =
     [MapBuffer 3, WriteBuffer 3 (unat (WIDTH * HEIGHT)), UnmapBuffer 3,
      MapBuffer 5, WriteBuffer 5 (unat (photon_launch_dim * photon_launch_dim)), UnmapBuffer 5]"
  using assms
  by (auto simp: createContext_def Let_def ctx_ops split: prod.splits sum.splits if_splits)

lemma main_setup_bound:
  assumes "main_setup pf pbo = Inr c"
  shows "bound c" and "\<forall>e\<in>set (api_log c). \<not> is_launch e \<and> seeds_or_output e"
proof -
  from assms obtain c0 where c0: "createContext pf pbo = Inr c0"
    and c: "c = log_event Validate (createLight pf (createGeometry pf (createMaterial pf) c0))"
    by (auto simp: main_setup_def Let_def split: sum.splits)
  from createContext_bound [OF c0] show "bound c"
    by (simp add: c bound_def getBuffer_def createLight_def createGeometry_def Let_def
        set_var_def log_event_def)
  show "\<forall>e\<in>set (api_log c). \<not> is_launch e \<and> seeds_or_output e"
    by (simp add: c createContext_log [OF c0] createLight_def createGeometry_def Let_def
        set_var_def log_event_def)
qed

lemma keyCallback_step:
  assumes "bound (ctx a)"
  shows "\<exists>a' ev. api_log (ctx a') = api_log (ctx a) @ ev \<and>
           (\<forall>e\<in>set ev. \<not> is_launch e \<and> seeds_or_output e) \<and>
           (if quit_key (Key key scancode action mods)
            then keyCallback key action a = Inl (Exited EXIT_SUCCESS, a')
            else keyCallback key action a = Inr a' \<and> bound (ctx a') \<and>
                 frame_count a' = frame_count a \<and>
                 accumulation_frame a' =
                   (if reset_event (Key key scancode action mods) then 0
                    else accumulation_frame a))"
  using assms
  by (auto simp: keyCallback_def Let_def bound_def getBuffer_def log_event_def
      GLFW_KEY_Q_def GLFW_KEY_ESCAPE_def GLFW_KEY_S_def GLFW_KEY_F_def)

lemma bound_resizeBuffer: "bound c \<Longrightarrow> bound (resizeBuffer b w h c)"
  by (simp add: bound_def getBuffer_def resizeBuffer_def log_event_def)

lemma api_log_resizeBuffer: "api_log (resizeBuffer b w h c) = api_log c @ [ResizeBuffer b w h]"
  by (simp add: resizeBuffer_def log_event_def)

lemma getBuffer_resizeBuffer: "getBuffer (resizeBuffer b w h c) name = getBuffer c name"
  by (simp add: getBuffer_def resizeBuffer_def log_event_def)

lemma resize_named_bound:
  assumes "bound c"
  shows "resize_named
           [''output_buffer'', ''debug_buffer'', ''rtpass_output_buffer'', ''image_rnd_seeds'']
           w h c =
         Inr (resizeBuffer 3 w h (resizeBuffer 2 w h (resizeBuffer 1 w h (resizeBuffer 0 w h c))))"
  using assms by (simp add: bound_def getBuffer_resizeBuffer)

lemma windowSizeCallback_step:
  assumes "bound (ctx a)"
  shows "\<exists>a' ev. api_log (ctx a') = api_log (ctx a) @ ev \<and>
           (\<forall>e\<in>set ev. \<not> is_launch e \<and> seeds_or_output e) \<and>
           windowSizeCallback w h r a = Inr a' \<and> bound (ctx a') \<and>
           frame_count a' = frame_count a \<and>
           accumulation_frame a' =
             (if reset_event (WindowSize w h r) then 0 else accumulation_frame a)"
proof (cases "w < 0 \<or> h < 0")
  case True
  then have "windowSizeCallback w h r a = Inr a" by (simp add: windowSizeCallback_def)
  moreover have "api_log (ctx a) = api_log (ctx a) @ []" by simp
  moreover have "accumulation_frame a =
      (if reset_event (WindowSize w h r) then 0 else accumulation_frame a)"
    using True by auto
  ultimately show ?thesis using assms by (intro exI [of _ a] exI [of _ "[]"]) simp
next
  case False
  define a1 where "a1 = (if r then a\<lparr>accumulation_frame := 0\<rparr> else a)"
  define c' where "c' = resizeBuffer 3 (nat w) (nat h) (resizeBuffer 2 (nat w) (nat h)
      (resizeBuffer 1 (nat w) (nat h) (resizeBuffer 0 (nat w) (nat h) (ctx a))))"
  define ev where "ev = [ResizeBuffer 0 (nat w) (nat h), ResizeBuffer 1 (nat w) (nat h),
      ResizeBuffer 2 (nat w) (nat h), ResizeBuffer 3 (nat w) (nat h)]"
  have ca1: "ctx a1 = ctx a" by (simp add: a1_def)
  have r: "windowSizeCallback w h r a = Inr (a1\<lparr>ctx := c'\<rparr>)"
    using False resize_named_bound [OF assms, of "nat w" "nat h"]
    by (simp add: windowSizeCallback_def Let_def a1_def [symmetric] ca1 c'_def
        del: resize_named.simps)
  have l: "api_log (ctx (a1\<lparr>ctx := c'\<rparr>)) = api_log (ctx a) @ ev"
    by (simp add: c'_def ev_def api_log_resizeBuffer)
  have q: "\<forall>e\<in>set ev. \<not> is_launch e \<and> seeds_or_output e" by (simp add: ev_def)
  have b: "bound (ctx (a1\<lparr>ctx := c'\<rparr>))"
    using assms by (simp add: c'_def bound_resizeBuffer)
  have f: "frame_count (a1\<lparr>ctx := c'\<rparr>) = frame_count a" by (simp add: a1_def)
  have c: "accumulation_frame (a1\<lparr>ctx := c'\<rparr>) =
      (if reset_event (WindowSize w h r) then 0 else accumulation_frame a)"
    using False by (simp add: a1_def)
  from r l q b f c show ?thesis by blast
qed

lemma dispatch_step:
  assumes "bound (ctx a)"
  shows "\<exists>a' ev. api_log (ctx a') = api_log (ctx a) @ ev \<and>
           (\<forall>e\<in>set ev. \<not> is_launch e \<and> seeds_or_output e) \<and>
           (if quit_key e
            then dispatch e a = Inl (Exited EXIT_SUCCESS, a')
            else dispatch e a = Inr a' \<and> bound (ctx a') \<and>
                 frame_count a' = frame_count a \<and>
                 accumulation_frame a' = (if reset_event e then 0 else accumulation_frame a))"
proof (cases e)
  case (Key key scancode action mods)
  show ?thesis
    by (simp only: Key dispatch.simps) (rule keyCallback_step [OF assms])
next
  case (WindowSize w h r)
  show ?thesis
    using windowSizeCallback_step [OF assms, of w h r]
    by (simp only: WindowSize dispatch.simps quit_key.simps if_False)
qed

lemma glfwPollEvents_step:
  assumes "bound (ctx a)"
  shows "\<exists>a' ev. api_log (ctx a') = api_log (ctx a) @ ev \<and>
           (\<forall>e\<in>set ev. \<not> is_launch e \<and> seeds_or_output e) \<and>
           (if list_ex quit_key es
            then glfwPollEvents es a = Inl (Exited EXIT_SUCCESS, a')
            else glfwPollEvents es a = Inr a' \<and> bound (ctx a') \<and>
                 frame_count a' = frame_count a \<and>
                 accumulation_frame a' =
                   (if list_ex reset_event es then 0 else accumulation_frame a))"
  using assms
proof (induction es arbitrary: a)
  case Nil
  then show ?case by simp
next
  case (Cons e es)
  from dispatch_step [OF Cons.prems, of e] obtain a1 ev1
    where l1: "api_log (ctx a1) = api_log (ctx a) @ ev1"
      and q1: "\<forall>e\<in>set ev1. \<not> is_launch e \<and> seeds_or_output e"
      and d1: "if quit_key e
               then dispatch e a = Inl (Exited EXIT_SUCCESS, a1)
               else dispatch e a = Inr a1 \<and> bound (ctx a1) \<and>
                    frame_count a1 = frame_count a \<and>
                    accumulation_frame a1 = (if reset_event e then 0 else accumulation_frame a)"
    by blast
  show ?case
  proof (cases "quit_key e")
    case True
    with d1 l1 q1 show ?thesis by auto
  next
    case False
    with d1 have d: "dispatch e a = Inr a1" and b1: "bound (ctx a1)"
      and f1: "frame_count a1 = frame_count a"
      and c1: "accumulation_frame a1 = (if reset_event e then 0 else accumulation_frame a)"
      by simp_all
    from Cons.IH [OF b1] obtain a2 ev2
      where l2: "api_log (ctx a2) = api_log (ctx a1) @ ev2"
        and q2: "\<forall>e\<in>set ev2. \<not> is_launch e \<and> seeds_or_output e"
        and d2: "if list_ex quit_key es
                 then glfwPollEvents es a1 = Inl (Exited EXIT_SUCCESS, a2)
                 else glfwPollEvents es a1 = Inr a2 \<and> bound (ctx a2) \<and>
                      frame_count a2 = frame_count a1 \<and>
                      accumulation_frame a2 =
                        (if list_ex reset_event es then 0 else accumulation_frame a1)"
      by blast
    have l: "api_log (ctx a2) = api_log (ctx a) @ (ev1 @ ev2)" using l1 l2 by simp
    have q: "\<forall>e\<in>set (ev1 @ ev2). \<not> is_launch e \<and> seeds_or_output e" using q1 q2 by auto
    have "if list_ex quit_key (e # es)
          then glfwPollEvents (e # es) a = Inl (Exited EXIT_SUCCESS, a2)
          else glfwPollEvents (e # es) a = Inr a2 \<and> bound (ctx a2) \<and>
               frame_count a2 = frame_count a \<and>
               accumulation_frame a2 =
                 (if list_ex reset_event (e # es) then 0 else accumulation_frame a)"
      using False d d2 f1 c1 by (auto split: if_splits)
    with l q show ?thesis by blast
  qed
qed

section \<open>One iteration of the display loop\<close>

lemma word_succ_eq_1: "(n :: u32) + 1 = 1 \<longleftrightarrow> n = 0"
  by simp

lemma glfwRun_body_quit:
  assumes "bound (ctx a)" "list_ex quit_key (events inp)"
  shows "\<exists>a' ev. glfwRun_body inp a = Inl (Exited EXIT_SUCCESS, a') \<and>
           api_log (ctx a') = api_log (ctx a) @ ev \<and>
           (\<forall>e\<in>set ev. \<not> is_launch e \<and> seeds_or_output e)"
  using glfwPollEvents_step [OF assms(1), of "events inp"] assms(2)
  by (auto simp: glfwRun_body_def)

lemma glfwRun_body_render:
  assumes "bound (ctx a)" "\<not> list_ex quit_key (events inp)"
  defines "n \<equiv> (if resets inp then 0 else accumulation_frame a)"
  shows "\<exists>a' new. glfwRun_body inp a = Inr a' \<and> bound (ctx a') \<and>
           vars (ctx a') ''frame_number'' = Some (VFloat (FOfU32 n)) \<and>
           vars (ctx a') ''total_emitted'' =
             Some (VFloat (FOfU64 (total_emitted (accumulation_frame a')))) \<and>
           accumulation_frame a' = n + 1 \<and>
           frame_count a' = frame_count a + 1 \<and>
           api_log (ctx a') = api_log (ctx a) @ new \<and>
           filter is_launch new =
             (if n = 0 then [Launch rtpass (camera_width inp) (camera_height inp)] else []) @
             [Launch ppass (unat photon_launch_dim) (unat photon_launch_dim),
              Launch gather (camera_width inp) (camera_height inp)] \<and>
           (\<forall>e\<in>set new. seeds_or_output e)"
proof -
  from glfwPollEvents_step [OF assms(1), of "events inp"] assms(2) obtain a1 ev
    where l1: "api_log (ctx a1) = api_log (ctx a) @ ev"
      and q1: "\<forall>e\<in>set ev. \<not> is_launch e \<and> seeds_or_output e"
      and p: "glfwPollEvents (events inp) a = Inr a1"
      and b1: "bound (ctx a1)"
      and f1: "frame_count a1 = frame_count a"
      and c1: "accumulation_frame a1 =
                 (if list_ex reset_event (events inp) then 0 else accumulation_frame a)"
    by auto
  have fl: "filter is_launch ev = []" using q1 by (simp add: filter_empty_conv)
  have g5: "getBuffer (ctx a1) ''photon_rnd_seeds'' = Some 5"
    and g0: "getBuffer (ctx a1) ''output_buffer'' = Some 0"
    using b1 by (simp_all add: bound_def)
  show ?thesis
  proof (cases "n = 0")
    case True
    then show ?thesis
      using p b1 f1 c1 l1 q1 fl
      by (auto simp: glfwRun_body_def Let_def n_def resets_def bound_def getBuffer_def
          set_var_def launch_def log_event_def fill_seeds_def split: if_splits)
  next
    case False
    then show ?thesis
      using p b1 f1 c1 l1 q1 fl
      by (auto simp: glfwRun_body_def Let_def n_def resets_def bound_def getBuffer_def
          set_var_def launch_def log_event_def fill_seeds_def split: if_splits)
  qed
qed

lemma reachable_bound:
  assumes "reachable pf pbo a"
  shows "bound (ctx a) \<and> (\<forall>e\<in>set (api_log (ctx a)). seeds_or_output e)"
  using assms
proof (induction rule: reachable.induct)
  case (start c)
  then show ?case using main_setup_bound [of pf pbo c] by simp
next
  case (frame a inp a')
  then have b: "bound (ctx a)" by simp
  show ?case
  proof (cases "list_ex quit_key (events inp)")
    case True
    from glfwRun_body_quit [OF b True] frame.hyps(2) show ?thesis by auto
  next
    case False
    from glfwRun_body_render [OF b False] frame.hyps(2) frame.IH show ?thesis by auto
  qed
qed

lemma seeds_or_output_not_touches: "seeds_or_output e \<Longrightarrow> \<not> touches 6 e"
  by (cases e) auto


section \<open>Runs of the display loop\<close>

lemma glfwRun_loop_snoc:
  "glfwRun_loop (inps @ [inp]) a0 =
     (case glfwRun_loop inps a0 of Inl s \<Rightarrow> Inl s | Inr a \<Rightarrow> glfwRun_body inp a)"
  by (induction inps arbitrary: a0) (auto split: sum.splits)

lemma glfwRun_loop_reachable:
  "reachable pf pbo a0 \<Longrightarrow> glfwRun_loop inps a0 = Inr a \<Longrightarrow> reachable pf pbo a"
proof (induction inps arbitrary: a0)
  case Nil
  then show ?case by simp
next
  case (Cons inp inps)
  from Cons.prems(2) obtain a1 where b: "glfwRun_body inp a0 = Inr a1"
    and l: "glfwRun_loop inps a1 = Inr a"
    by (auto split: sum.splits)
  from Cons.prems(1) b have "reachable pf pbo a1" by (rule reachable.frame)
  then show ?case using l by (rule Cons.IH)
qed

text \<open>Every state in which an iteration can start is reached by a run from the set-up.\<close>

lemma reachable_run:
  assumes "reachable pf pbo a"
  shows "\<exists>c inps. main_setup pf pbo = Inr c \<and>
           glfwRun_loop inps \<lparr>ctx = c, frame_count = 0, accumulation_frame = 0, cerr = []\<rparr> =
             Inr a"
  using assms
proof (induction rule: reachable.induct)
  case (start c)
  have "glfwRun_loop [] \<lparr>ctx = c, frame_count = 0, accumulation_frame = 0, cerr = []\<rparr> =
      Inr \<lparr>ctx = c, frame_count = 0, accumulation_frame = 0, cerr = []\<rparr>" by simp
  with start show ?case by blast
next
  case (frame a inp a')
  then obtain c inps where c: "main_setup pf pbo = Inr c"
    and l: "glfwRun_loop inps \<lparr>ctx = c, frame_count = 0, accumulation_frame = 0, cerr = []\<rparr> =
              Inr a"
    by blast
  have "glfwRun_loop (inps @ [inp])
          \<lparr>ctx = c, frame_count = 0, accumulation_frame = 0, cerr = []\<rparr> = Inr a'"
    by (simp add: glfwRun_loop_snoc l frame.hyps(2))
  with c show ?case by blast
qed

text \<open>
  At the start of an iteration the counter is the number of iterations since the start or the
  last reset, modulo \<open>2^32\<close>.
\<close>

lemma glfwRun_loop_counter:
  assumes "bound (ctx a0)" and "accumulation_frame a0 = of_nat k"
    and "glfwRun_loop inps a0 = Inr a"
  shows "accumulation_frame a = of_nat (frames_since_reset k inps)"
  using assms
proof (induction inps arbitrary: a0 k)
  case Nil
  then show ?case by simp
next
  case (Cons inp inps)
  from Cons.prems(3) obtain a1 where b: "glfwRun_body inp a0 = Inr a1"
    and l: "glfwRun_loop inps a1 = Inr a"
    by (auto split: sum.splits)
  have nq: "\<not> list_ex quit_key (events inp)"
  proof
    assume "list_ex quit_key (events inp)"
    from glfwRun_body_quit [OF Cons.prems(1) this] b show False by auto
  qed
  from glfwRun_body_render [OF Cons.prems(1) nq] b
  have b1: "bound (ctx a1)"
    and c1: "accumulation_frame a1 = (if resets inp then 0 else accumulation_frame a0) + 1"
    by auto
  have "accumulation_frame a1 = of_nat (if resets inp then 1 else k + 1)"
    using c1 Cons.prems(2) by simp
  from Cons.IH [OF b1 this l] show ?case by simp
qed

lemma glfwRun_loop_idle:
  assumes "bound (ctx a0)"
  shows "\<exists>a. glfwRun_loop (replicate m idle_frame) a0 = Inr a"
  using assms
proof (induction m arbitrary: a0)
  case 0
  then show ?case by simp
next
  case (Suc m)
  have nq: "\<not> list_ex quit_key (events idle_frame)" by (simp add: idle_frame_def)
  from glfwRun_body_render [OF Suc.prems nq] obtain a1
    where b: "glfwRun_body idle_frame a0 = Inr a1" and b1: "bound (ctx a1)" by blast
  from Suc.IH [OF b1] b show ?case by simp
qed

lemma frames_since_reset_idle: "frames_since_reset k (replicate m idle_frame) = k + m"
  by (induction m arbitrary: k) (simp_all add: resets_def idle_frame_def)

section \<open>The model on a concrete platform\<close>

lemma main_setup_platform1: "main_setup platform1 True = Inr context1"
proof -
  have "\<exists>c. createContext platform1 True = Inr c"
    by (simp add: createContext_def platform1_def Let_def ctx_ops)
  then obtain c where c: "createContext platform1 True = Inr c" by blast
  have "main_setup platform1 True = Inr (log_event Validate (createLight platform1
      (createGeometry platform1 (createMaterial platform1) c)))"
    by (simp add: main_setup_def c Let_def)
  then show ?thesis by (simp add: context1_def)
qed

lemma glew_ok_platform1: "glew_ok platform1"
  by (simp add: platform1_def)

lemma reachable_app1: "reachable platform1 True app1"
  unfolding app1_def by (rule reachable.start) (rule main_setup_platform1)

section \<open>The configured context\<close>

lemma createContext_counts:
  assumes "createContext pf pbo = Inr c"
  shows "ray_type_count c = 3" "entry_point_count c = NUM_PROGRAMS"
  using assms
  by (auto simp: createContext_def Let_def ctx_ops split: prod.splits sum.splits if_splits)

lemma createContext_programs:
  assumes "createContext pf pbo = Inr c"
  shows "ray_generation_program c =
           [rtpass \<mapsto> createProgramFromPTXFile (ptxPath pf ''ppm_rtpass.cu'') ''rtpass_camera'',
            ppass \<mapsto> createProgramFromPTXFile (ptxPath pf ''ppm_ppass.cu'') ''ppass_camera'',
            gather \<mapsto> createProgramFromPTXFile (ptxPath pf ''ppm_gather.cu'') ''gather'']"
    and "exception_program c =
           [rtpass \<mapsto> createProgramFromPTXFile (ptxPath pf ''ppm_rtpass.cu'') ''rtpass_exception'',
            gather \<mapsto> createProgramFromPTXFile (ptxPath pf ''ppm_gather.cu'') ''gather_exception'']"
    and "miss_program c =
           [rtpass \<mapsto> createProgramFromPTXFile (ptxPath pf ''ppm_rtpass.cu'') ''rtpass_miss'']"
  using assms
  by (auto simp: createContext_def Let_def ctx_ops split: prod.splits sum.splits if_splits)

lemma createContext_buffers:
  assumes "createContext pf pbo = Inr c"
  shows "buffers c =
     [\<lparr>buf_type = [RT_BUFFER_OUTPUT], buf_format = RT_FORMAT_FLOAT4,
       buf_size = [unat WIDTH, unat HEIGHT], buf_element_size = None, buf_pbo = pbo\<rparr>,
      \<lparr>buf_type = [RT_BUFFER_OUTPUT], buf_format = RT_FORMAT_FLOAT4,
       buf_size = [unat WIDTH, unat HEIGHT], buf_element_size = None, buf_pbo = False\<rparr>,
      \<lparr>buf_type = [RT_BUFFER_OUTPUT], buf_format = RT_FORMAT_USER,
       buf_size = [unat WIDTH, unat HEIGHT], buf_element_size = Some (sizeof_HitRecord pf),
       buf_pbo = False\<rparr>,
      \<lparr>buf_type = [RT_BUFFER_INPUT_OUTPUT, RT_BUFFER_GPU_LOCAL],
       buf_format = RT_FORMAT_UNSIGNED_INT2,
       buf_size = [unat WIDTH, unat HEIGHT], buf_element_size = None, buf_pbo = False\<rparr>,
      \<lparr>buf_type = [RT_BUFFER_OUTPUT], buf_format = RT_FORMAT_USER,
       buf_size = [unat (photon_launch_dim * photon_launch_dim * MAX_PHOTON_COUNT)],
       buf_element_size = Some (sizeof_PhotonRecord pf), buf_pbo = False\<rparr>,
      \<lparr>buf_type = [RT_BUFFER_INPUT], buf_format = RT_FORMAT_UNSIGNED_INT2,
       buf_size = [unat photon_launch_dim, unat photon_launch_dim],
       buf_element_size = None, buf_pbo = False\<rparr>,
      \<lparr>buf_type = [RT_BUFFER_INPUT], buf_format = RT_FORMAT_USER,
       buf_size =
         [unat (pow2roundup (photon_launch_dim * photon_launch_dim * MAX_PHOTON_COUNT) - 1)],
       buf_element_size = Some (sizeof_PhotonRecord pf), buf_pbo = False\<rparr>]"
  using assms
  by (auto simp: createContext_def Let_def ctx_ops split: prod.splits sum.splits if_splits)

lemma createContext_platform1: "\<exists>c. createContext platform1 True = Inr c"
  by (simp add: createContext_def platform1_def Let_def ctx_ops)

lemma createContext_created1: "createContext platform1 True = Inr created1"
  using createContext_platform1 by (auto simp: created1_def)

lemma named_buffer_bound:
  assumes "bound c"
  shows "named_buffer c ''output_buffer'' = Some (buffers c ! 0)"
    and "named_buffer c ''debug_buffer'' = Some (buffers c ! 1)"
    and "named_buffer c ''rtpass_output_buffer'' = Some (buffers c ! 2)"
    and "named_buffer c ''image_rnd_seeds'' = Some (buffers c ! 3)"
    and "named_buffer c ''ppass_output_buffer'' = Some (buffers c ! 4)"
    and "named_buffer c ''photon_rnd_seeds'' = Some (buffers c ! 5)"
    and "named_buffer c ''photon_map'' = Some (buffers c ! 6)"
  using assms by (simp_all add: named_buffer_def bound_def)

lemma num_photons: "photon_launch_dim * photon_launch_dim * MAX_PHOTON_COUNT = 524288"
  by (simp add: photon_launch_dim_def MAX_PHOTON_COUNT_def)

lemma photon_map_size: "pow2roundup 524288 - 1 = 524287"
  by (simp add: pow2roundup_def)

text \<open>
  Claim C2. When \<open>createContext\<close> returns, the context has exactly three entry points and a
  ray-type count of 3; the passes are numbered rtpass = 0, ppass = 1, gather = 2; and a
  ray-generation program is assigned at exactly these three entry points: the camera program of
  the eye-ray pass, the camera program of the photon pass, and the gather program.
\<close>

theorem entry_points:
  assumes "createContext pf pbo = Inr c"
  shows "entry_point_count c = 3 \<and> ray_type_count c = 3
       \<and> rtpass = 0 \<and> ppass = 1 \<and> gather = 2
       \<and> dom (ray_generation_program c) = {rtpass, ppass, gather}
       \<and> dom (ray_generation_program c) = {i. i < entry_point_count c}
       \<and> ray_generation_program c rtpass =
           Some \<lparr>prog_ptx = ptxPath pf ''ppm_rtpass.cu'', prog_name = ''rtpass_camera''\<rparr>
       \<and> ray_generation_program c ppass =
           Some \<lparr>prog_ptx = ptxPath pf ''ppm_ppass.cu'', prog_name = ''ppass_camera''\<rparr>
       \<and> ray_generation_program c gather =
           Some \<lparr>prog_ptx = ptxPath pf ''ppm_gather.cu'', prog_name = ''gather''\<rparr>"
proof -
  note p = createContext_programs(1) [OF assms]
  note n = createContext_counts [OF assms]
  have d: "dom (ray_generation_program c) = {rtpass, ppass, gather}"
    by (auto simp: p)
  have "{rtpass, ppass, gather} = {i. i < (3::nat)}"
    by (auto simp: rtpass_def ppass_def gather_def)
  with d n show ?thesis
    by (simp add: p NUM_PROGRAMS_def createProgramFromPTXFile_def)
      (simp add: rtpass_def ppass_def gather_def)
qed

theorem entry_points_witness:
  "createContext platform1 True = Inr created1
   \<and> entry_point_count created1 = 3 \<and> ray_type_count created1 = 3
   \<and> dom (ray_generation_program created1) = {rtpass, ppass, gather}
   \<and> ray_generation_program created1 gather =
       Some \<lparr>prog_ptx = ptxPath platform1 ''ppm_gather.cu'', prog_name = ''gather''\<rparr>"
  using entry_points [OF createContext_created1] createContext_created1 by simp

lemma main_setup_cases:
  assumes "main_setup pf pbo = Inr c"
  obtains c0 where "createContext pf pbo = Inr c0"
    and "c = log_event Validate (createLight pf (createGeometry pf (createMaterial pf) c0))"
  using assms by (auto simp: main_setup_def Let_def split: sum.splits)







text \<open>
  Claim C5. When \<open>createContext\<close> returns, the output, debug, eye-ray hit-record and image
  random-seed buffers each have the dimensions WIDTH x HEIGHT = 768 x 768, the photon output
  buffer has \<open>photon_launch_dim^2 * MAX_PHOTON_COUNT\<close> = 512 * 512 * 2 = 524288 elements, and
  the photon map buffer has \<open>pow2roundup(524288) - 1\<close> = 524287 elements.
\<close>

theorem buffer_sizes:
  assumes "createContext pf pbo = Inr c"
  shows "map_option buf_size (named_buffer c ''output_buffer'') = Some [768, 768]
       \<and> map_option buf_size (named_buffer c ''debug_buffer'') = Some [768, 768]
       \<and> map_option buf_size (named_buffer c ''rtpass_output_buffer'') = Some [768, 768]
       \<and> map_option buf_size (named_buffer c ''image_rnd_seeds'') = Some [768, 768]
       \<and> map_option buf_size (named_buffer c ''ppass_output_buffer'') = Some [524288]
       \<and> map_option buf_size (named_buffer c ''photon_map'') = Some [524287]
       \<and> unat WIDTH = 768 \<and> unat HEIGHT = 768
       \<and> unat (photon_launch_dim * photon_launch_dim * MAX_PHOTON_COUNT) = 512 * 512 * 2
       \<and> unat (pow2roundup 524288 - 1) = 524287"
proof -
  note b = named_buffer_bound [OF createContext_bound [OF assms]]
  note bs = createContext_buffers [OF assms]
  have w: "unat WIDTH = 768" "unat HEIGHT = 768" by (simp_all add: WIDTH_def HEIGHT_def)
  show ?thesis
    by (simp add: b bs w num_photons photon_map_size)
qed

theorem buffer_sizes_witness:
  "createContext platform1 True = Inr created1
   \<and> map_option buf_size (named_buffer created1 ''output_buffer'') = Some [768, 768]
   \<and> map_option buf_size (named_buffer created1 ''ppass_output_buffer'') = Some [524288]
   \<and> map_option buf_size (named_buffer created1 ''photon_map'') = Some [524287]"
  using buffer_sizes [OF createContext_created1] createContext_created1 by simp

text \<open>
  Claim C6. After the set-up of \<open>main\<close>, the element size of the eye-ray pass output buffer is
  \<open>sizeof(HitRecord)\<close>, the element sizes of the photon pass output buffer and of the photon
  map buffer are \<open>sizeof(PhotonRecord)\<close>, and the variable \<open>light\<close> holds user data of
  \<open>sizeof(PPMLight)\<close> bytes.
\<close>

theorem element_sizes:
  assumes "main_setup pf pbo = Inr c"
  shows "map_option buf_element_size (named_buffer c ''rtpass_output_buffer'') =
           Some (Some (sizeof_HitRecord pf))
       \<and> map_option buf_element_size (named_buffer c ''ppass_output_buffer'') =
           Some (Some (sizeof_PhotonRecord pf))
       \<and> map_option buf_element_size (named_buffer c ''photon_map'') =
           Some (Some (sizeof_PhotonRecord pf))
       \<and> vars c ''light'' = Some (VUserData (sizeof_PPMLight pf))"
proof -
  from assms obtain c0 where c0: "createContext pf pbo = Inr c0"
    and c: "c = log_event Validate (createLight pf (createGeometry pf (createMaterial pf) c0))"
    by (rule main_setup_cases)
  have bs: "buffers c = buffers c0"
    by (simp add: c log_event_def createLight_def createGeometry_def Let_def set_var_def)
  note b = named_buffer_bound [OF main_setup_bound(1) [OF assms]]
  have l: "vars c ''light'' = Some (VUserData (sizeof_PPMLight pf))"
    by (simp add: c log_event_def createLight_def Let_def set_var_def)
  show ?thesis
    by (simp add: b bs createContext_buffers [OF c0] l)
qed

theorem element_sizes_witness:
  "main_setup platform1 True = Inr context1
   \<and> map_option buf_element_size (named_buffer context1 ''rtpass_output_buffer'') =
       Some (Some 48)
   \<and> map_option buf_element_size (named_buffer context1 ''photon_map'') = Some (Some 52)
   \<and> vars context1 ''light'' = Some (VUserData 72)"
  using element_sizes [OF main_setup_platform1] main_setup_platform1
  by (simp add: platform1_def)

section \<open>Properties of the display loop\<close>

lemma unat_photon_launch_dim: "unat photon_launch_dim = 512"
  by (simp add: photon_launch_dim_def)

lemma glfwRun_body_total_emitted:
  assumes "glfwRun_body inp a = Inr a'"
  shows "vars (ctx a') ''total_emitted'' =
           Some (VFloat (FOfU64 (total_emitted (accumulation_frame a'))))"
  using assms
  by (auto simp: glfwRun_body_def Let_def set_var_def launch_def log_event_def fill_seeds_def
      getBuffer_def split: sum.splits option.splits variable.splits if_splits)

text \<open>
  Claim C9. The integer cast to float for \<open>total_emitted\<close> is the 64-bit product
  \<open>accumulation_frame * 512 * 512\<close>; read as a natural number it equals the exact product for
  every value of the 32-bit counter, and that product is below \<open>2^64\<close>. Every iteration of the
  loop that reaches its end leaves \<open>total_emitted\<close> set to the cast of this product of the
  counter as incremented in that iteration.
\<close>

theorem total_emitted_exact:
  "unat (total_emitted af) = unat af * 512 * 512
   \<and> unat af * 512 * 512 < 2 ^ 64
   \<and> (glfwRun_body inp a = Inr a' \<longrightarrow>
        vars (ctx a') ''total_emitted'' =
          Some (VFloat (FOfU64 (total_emitted (accumulation_frame a')))))"
proof -
  have "unat af < 2 ^ 32" using unsigned_less [of af] by simp
  then have "unat af * 512 * 512 < 2 ^ 64" by simp
  then show ?thesis
    using unat_total_emitted [of af] glfwRun_body_total_emitted [of inp a a'] by blast
qed

text \<open>
  Claim C1, as amended. Take a run of the loop from the set-up in which every iteration so far
  reached its end, and a next iteration in which no press of Q or Escape is delivered. That
  iteration runs to its end and its launches are, in this order: the eye-ray pass if and only if
  the counter is 0 where the frame number is recorded, then the photon pass on 512 x 512, then
  the gather pass. The counter is 0 there exactly in these cases: the events or the mouse
  handling of this iteration reset it; or it is the first iteration; or the number of iterations
  run since the start (or from the last resetting iteration on) is a multiple of \<open>2^32\<close>, the
  32-bit counter having wrapped around.
\<close>

theorem display_loop_launches:
  assumes "main_setup pf pbo = Inr c"
    and "glfwRun_loop inps \<lparr>ctx = c, frame_count = 0, accumulation_frame = 0, cerr = []\<rparr> =
           Inr a"
    and "\<not> list_ex quit_key (events inp)"
  shows "\<exists>a' n new.
           glfwRun_body inp a = Inr a' \<and> reachable pf pbo a' \<and>
           n = (if resets inp then 0 else accumulation_frame a) \<and>
           (n = 0 \<longleftrightarrow> resets inp \<or> 2 ^ 32 dvd frames_since_reset 0 inps) \<and>
           vars (ctx a') ''frame_number'' = Some (VFloat (FOfU32 n)) \<and>
           accumulation_frame a' = n + 1 \<and>
           api_log (ctx a') = api_log (ctx a) @ new \<and>
           filter is_launch new =
             (if n = 0 then [Launch rtpass (camera_width inp) (camera_height inp)] else []) @
             [Launch ppass 512 512, Launch gather (camera_width inp) (camera_height inp)]"
proof -
  let ?init = "\<lparr>ctx = c, frame_count = 0, accumulation_frame = 0, cerr = []\<rparr>"
  have r0: "reachable pf pbo ?init" using assms(1) by (rule reachable.start)
  have ra: "reachable pf pbo a" using r0 assms(2) by (rule glfwRun_loop_reachable)
  from reachable_bound [OF ra] have b: "bound (ctx a)" by simp
  have b0: "bound (ctx ?init)" using main_setup_bound(1) [OF assms(1)] by simp
  have "accumulation_frame ?init = of_nat 0" by simp
  from glfwRun_loop_counter [OF b0 this assms(2)]
  have k: "accumulation_frame a = of_nat (frames_since_reset 0 inps)" .
  have z: "(if resets inp then 0 else accumulation_frame a) = 0 \<longleftrightarrow>
      resets inp \<or> 2 ^ 32 dvd frames_since_reset 0 inps"
    by (simp add: k word_of_nat_eq_0_iff)
  from glfwRun_body_render [OF b assms(3)] obtain a' new
    where r: "glfwRun_body inp a = Inr a'"
      and f: "vars (ctx a') ''frame_number'' =
                Some (VFloat (FOfU32 (if resets inp then 0 else accumulation_frame a)))"
      and c: "accumulation_frame a' = (if resets inp then 0 else accumulation_frame a) + 1"
      and l: "api_log (ctx a') = api_log (ctx a) @ new"
      and fl: "filter is_launch new =
             (if (if resets inp then 0 else accumulation_frame a) = 0
              then [Launch rtpass (camera_width inp) (camera_height inp)] else []) @
             [Launch ppass (unat photon_launch_dim) (unat photon_launch_dim),
              Launch gather (camera_width inp) (camera_height inp)]"
    by blast
  have re: "reachable pf pbo a'" using ra r by (rule reachable.frame)
  have fl': "filter is_launch new =
             (if (if resets inp then 0 else accumulation_frame a) = 0
              then [Launch rtpass (camera_width inp) (camera_height inp)] else []) @
             [Launch ppass 512 512, Launch gather (camera_width inp) (camera_height inp)]"
    using fl by (simp only: unat_photon_launch_dim)
  show ?thesis
    by (rule exI [of _ a'], rule exI [of _ "if resets inp then 0 else accumulation_frame a"],
        rule exI [of _ new])
      (intro conjI r re refl z f c l fl')
qed

lemma glfwRun_body_idle:
  "\<exists>a'. glfwRun_body idle_frame app1 = Inr a'"
  using glfwRun_body_render [OF conjunct1 [OF reachable_bound [OF reachable_app1]],
      of idle_frame]
  by (auto simp: idle_frame_def)

theorem total_emitted_exact_witness:
  "\<exists>a'. glfwRun_body idle_frame app1 = Inr a'
     \<and> vars (ctx a') ''total_emitted'' =
         Some (VFloat (FOfU64 (total_emitted (accumulation_frame a'))))
     \<and> unat (total_emitted 16384) = 16384 * 512 * 512"
proof -
  from glfwRun_body_idle obtain a' where a': "glfwRun_body idle_frame app1 = Inr a'" by blast
  from total_emitted_exact [of 16384 idle_frame app1 a'] a' show ?thesis by auto
qed

lemma total_emitted_u32_wraps: "total_emitted_u32 16384 = 0"
  by (simp add: total_emitted_u32_def photon_launch_dim_def)

lemma bound_app1: "bound (ctx app1)"
  using reachable_bound [OF reachable_app1] by simp

lemma glfwRun_loop_nil_app1:
  "glfwRun_loop [] \<lparr>ctx = context1, frame_count = 0, accumulation_frame = 0, cerr = []\<rparr> =
     Inr app1"
  by (simp add: app1_def)

theorem display_loop_launches_witness:
  "main_setup platform1 True = Inr context1
   \<and> glfwRun_loop [] \<lparr>ctx = context1, frame_count = 0, accumulation_frame = 0, cerr = []\<rparr> =
       Inr app1
   \<and> \<not> list_ex quit_key (events idle_frame)
   \<and> (\<exists>a' new. glfwRun_body idle_frame app1 = Inr a'
         \<and> vars (ctx a') ''frame_number'' = Some (VFloat (FOfU32 0))
         \<and> accumulation_frame a' = 1
         \<and> api_log (ctx a') = api_log (ctx app1) @ new
         \<and> filter is_launch new =
             [Launch rtpass 768 768, Launch ppass 512 512, Launch gather 768 768])"
proof -
  have q: "\<not> list_ex quit_key (events idle_frame)" by (simp add: idle_frame_def)
  from display_loop_launches [OF main_setup_platform1 glfwRun_loop_nil_app1 q]
    main_setup_platform1 glfwRun_loop_nil_app1 q
  show ?thesis
    by (auto simp: idle_frame_def app1_def resets_def)
qed

lemma word_2p32: "(of_nat (0 + 2 ^ 32) :: u32) = 0"
  by simp

lemma wrapped_app_run:
  "glfwRun_loop (replicate (2 ^ 32) idle_frame) app1 = Inr wrapped_app"
proof -
  from glfwRun_loop_idle [OF bound_app1, of "2 ^ 32"] obtain a
    where l: "glfwRun_loop (replicate (2 ^ 32) idle_frame) app1 = Inr a" by blast
  have "wrapped_app = a" unfolding wrapped_app_def l by simp
  with l show ?thesis by (simp only:)
qed

lemma wrapped_app_counter: "accumulation_frame wrapped_app = 0"
proof -
  have "accumulation_frame app1 = of_nat 0" by (simp add: app1_def)
  from glfwRun_loop_counter [OF bound_app1 this wrapped_app_run]
  show ?thesis by (simp only: frames_since_reset_idle word_2p32)
qed

lemma wrapped_next_frame:
  "glfwRun_body idle_frame wrapped_app = Inr wrapped_next"
  "vars (ctx wrapped_next) ''frame_number'' = Some (VFloat (FOfU32 0))"
  "filter is_launch (drop (length (api_log (ctx wrapped_app))) (api_log (ctx wrapped_next))) =
     [Launch rtpass 768 768, Launch ppass 512 512, Launch gather 768 768]"
proof -
  have ra: "reachable platform1 True wrapped_app"
    using reachable_app1 wrapped_app_run by (rule glfwRun_loop_reachable)
  from reachable_bound [OF ra] have b: "bound (ctx wrapped_app)" by simp
  have q: "\<not> list_ex quit_key (events idle_frame)" by (simp add: idle_frame_def)
  have n: "(if resets idle_frame then 0 else accumulation_frame wrapped_app) = 0"
    by (simp add: wrapped_app_counter)
  from glfwRun_body_render [OF b q] obtain a' new
    where r: "glfwRun_body idle_frame wrapped_app = Inr a'"
      and f: "vars (ctx a') ''frame_number'' =
                Some (VFloat (FOfU32 (if resets idle_frame then 0
                                      else accumulation_frame wrapped_app)))"
      and l: "api_log (ctx a') = api_log (ctx wrapped_app) @ new"
      and fl: "filter is_launch new =
             (if (if resets idle_frame then 0 else accumulation_frame wrapped_app) = 0
              then [Launch rtpass (camera_width idle_frame) (camera_height idle_frame)]
              else []) @
             [Launch ppass (unat photon_launch_dim) (unat photon_launch_dim),
              Launch gather (camera_width idle_frame) (camera_height idle_frame)]"
    by blast
  have e: "wrapped_next = a'" by (simp add: wrapped_next_def r)
  show "glfwRun_body idle_frame wrapped_app = Inr wrapped_next" using r e by simp
  show "vars (ctx wrapped_next) ''frame_number'' = Some (VFloat (FOfU32 0))"
    using f n e by simp
  show "filter is_launch (drop (length (api_log (ctx wrapped_app)))
          (api_log (ctx wrapped_next))) =
     [Launch rtpass 768 768, Launch ppass 512 512, Launch gather 768 768]"
    using fl n l e by (simp add: unat_photon_launch_dim idle_frame_def)
qed

text \<open>
  Claim C1 as stated fails in two ways. When Q is pressed, the callback runs inside
  \<open>glfwPollEvents\<close> and exits the process, so the iteration launches nothing: the first run below
  enters the loop once and ends with status 0 and no launch in its log. And the counter is 0
  also without a reset in an iteration that is not the first: after \<open>2^32\<close> frames without
  events the 32-bit counter is 0 again, and the next frame, again without events, records frame
  number 0 and launches the eye-ray pass.
\<close>

theorem display_loop_counterexample:
  "list_ex quit_key (events quit_frame)
   \<and> main platform1 ''ppm'' [] [quit_frame] =
       \<lparr>status = 0, stderr = [], window = True, final = Some (log_event Destroy context1)\<rparr>
   \<and> filter is_launch (api_log (log_event Destroy context1)) = []
   \<and> glfwRun_loop (replicate (2 ^ 32) idle_frame) app1 = Inr wrapped_app
   \<and> \<not> resets idle_frame
   \<and> accumulation_frame wrapped_app = 0
   \<and> glfwRun_body idle_frame wrapped_app = Inr wrapped_next
   \<and> vars (ctx wrapped_next) ''frame_number'' = Some (VFloat (FOfU32 0))
   \<and> filter is_launch (drop (length (api_log (ctx wrapped_app))) (api_log (ctx wrapped_next))) =
       [Launch rtpass 768 768, Launch ppass 512 512, Launch gather 768 768]"
proof -
  have q: "list_ex quit_key (events quit_frame)" by (simp add: quit_frame_def)
  have "glfwPollEvents (events quit_frame) app1 =
      Inl (Exited EXIT_SUCCESS, app1\<lparr>ctx := log_event Destroy (ctx app1)\<rparr>)"
    by (simp add: quit_frame_def keyCallback_def)
  then have b: "glfwRun_body quit_frame app1 =
      Inl (Exited EXIT_SUCCESS, app1\<lparr>ctx := log_event Destroy (ctx app1)\<rparr>)"
    by (simp add: glfwRun_body_def)
  have r: "glfwRun [quit_frame] context1 =
      Inl (Exited EXIT_SUCCESS, app1\<lparr>ctx := log_event Destroy (ctx app1)\<rparr>)"
    using b by (simp add: glfwRun_def app1_def)
  have m: "main platform1 ''ppm'' [] [quit_frame] =
       \<lparr>status = 0, stderr = [], window = True, final = Some (log_event Destroy context1)\<rparr>"
    by (simp add: main_def initial_options_def glew_ok_platform1 main_setup_platform1 r
        EXIT_SUCCESS_def app1_def)
  have "\<forall>e\<in>set (api_log context1). \<not> is_launch e"
    using main_setup_bound(2) [OF main_setup_platform1] by blast
  then have l: "filter is_launch (api_log (log_event Destroy context1)) = []"
    by (simp add: log_event_def filter_empty_conv)
  have i: "\<not> resets idle_frame" by (simp add: resets_def idle_frame_def)
  from q m l wrapped_app_run i wrapped_app_counter wrapped_next_frame
  show ?thesis by (intro conjI)
qed

text \<open>
  Claim C3. In every state in which an iteration of the display loop can start, \<open>photon_map\<close>
  names an allocated buffer, and no call logged since the context was created maps that buffer,
  stores into it, or hands it to a routine that reads it; the same holds for the log of an
  iteration that stops early. The logs contain every launch of the gather pass.
\<close>

theorem photon_map_untouched:
  assumes "reachable pf pbo a"
  shows "\<exists>b. getBuffer (ctx a) ''photon_map'' = Some b \<and> b < length (buffers (ctx a))
           \<and> (\<forall>e\<in>set (api_log (ctx a)). \<not> touches b e)
           \<and> (\<forall>inp st a'. glfwRun_body inp a = Inl (st, a') \<longrightarrow>
                 (\<forall>e\<in>set (api_log (ctx a')). \<not> touches b e))"
proof -
  from reachable_bound [OF assms] have b: "bound (ctx a)"
    and t: "\<forall>e\<in>set (api_log (ctx a)). \<not> touches 6 e"
    by (simp_all add: seeds_or_output_not_touches)
  have g: "getBuffer (ctx a) ''photon_map'' = Some 6" "6 < length (buffers (ctx a))"
    using b by (simp_all add: bound_def)
  have x: "\<forall>e\<in>set (api_log (ctx a')). \<not> touches 6 e"
    if s: "glfwRun_body inp a = Inl (st, a')" for inp st a'
  proof (cases "list_ex quit_key (events inp)")
    case True
    from glfwRun_body_quit [OF b True] s t show ?thesis
      by (auto simp: seeds_or_output_not_touches)
  next
    case False
    from glfwRun_body_render [OF b False] s show ?thesis by auto
  qed
  from g t x show ?thesis by blast
qed

theorem photon_map_untouched_witness:
  "reachable platform1 True app1
   \<and> (\<exists>b. getBuffer (ctx app1) ''photon_map'' = Some b \<and> b < length (buffers (ctx app1))
         \<and> (\<forall>e\<in>set (api_log (ctx app1)). \<not> touches b e)
         \<and> (\<forall>e\<in>set (api_log (log_event Destroy (ctx app1))). \<not> touches b e))"
proof -
  have "glfwPollEvents (events quit_frame) app1 =
      Inl (Exited EXIT_SUCCESS, app1\<lparr>ctx := log_event Destroy (ctx app1)\<rparr>)"
    by (simp add: quit_frame_def keyCallback_def)
  then have b: "glfwRun_body quit_frame app1 =
      Inl (Exited EXIT_SUCCESS, app1\<lparr>ctx := log_event Destroy (ctx app1)\<rparr>)"
    by (simp add: glfwRun_body_def)
  from photon_map_untouched [OF reachable_app1] obtain k
    where k: "getBuffer (ctx app1) ''photon_map'' = Some k" "k < length (buffers (ctx app1))"
      "\<forall>e\<in>set (api_log (ctx app1)). \<not> touches k e"
      "\<forall>inp st a'. glfwRun_body inp app1 = Inl (st, a') \<longrightarrow>
          (\<forall>e\<in>set (api_log (ctx a')). \<not> touches k e)"
    by blast
  from k(4) b have "\<forall>e\<in>set (api_log (ctx (app1\<lparr>ctx := log_event Destroy (ctx app1)\<rparr>))).
      \<not> touches k e" by blast
  then have "\<forall>e\<in>set (api_log (log_event Destroy (ctx app1))). \<not> touches k e" by simp
  with k reachable_app1 show ?thesis by blast
qed

section \<open>Command line\<close>

lemma parse_args_append:
  "parse_args argv0 pre opts = Inr opts' \<Longrightarrow>
   parse_args argv0 (pre @ rest) opts = parse_args argv0 rest opts'"
proof (induction argv0 pre opts rule: parse_args.induct)
  case (1 argv0 opts)
  then show ?case by simp
next
  case (2 argv0 arg rest' opts)
  show ?case
  proof (cases "arg = ''-h'' \<or> arg = ''--help''")
    case True
    with "2.prems" show ?thesis by simp
  next
    case nh: False
    show ?thesis
    proof (cases "arg = ''-f'' \<or> arg = ''--file''")
      case True
      show ?thesis
      proof (cases rest')
        case Nil
        with "2.prems" nh True show ?thesis by simp
      next
        case (Cons fl rest'')
        from "2.prems" nh True Cons
        have "parse_args argv0 rest'' (opts\<lparr>out_file := fl\<rparr>) = Inr opts'" by simp
        from "2.IH"(1) [OF nh True Cons this] nh True Cons show ?thesis by simp
      qed
    next
      case nf: False
      show ?thesis
      proof (cases "arg = ''-n'' \<or> arg = ''--nopbo''")
        case True
        from "2.prems" nh nf True
        have "parse_args argv0 rest' (opts\<lparr>use_pbo := False\<rparr>) = Inr opts'" by simp
        from "2.IH"(2) [OF nh nf True this] nh nf True show ?thesis by simp
      next
        case nn: False
        show ?thesis
        proof (cases "begins_with_dash arg")
          case True
          with "2.prems" nh nf nn show ?thesis by simp
        next
          case False
          from "2.prems" nh nf nn False
          have "parse_args argv0 rest' (opts\<lparr>mesh_files := mesh_files opts @ [arg]\<rparr>) = Inr opts'"
            by simp
          from "2.IH"(3) [OF nh nf nn False this] nh nf nn False show ?thesis by simp
        qed
      qed
    qed
  qed
qed

text \<open>
  Claim C10, as amended. Let the arguments before \<open>a\<close> be parsed without exit (so \<open>a\<close> is not
  taken as the file name of a preceding \<open>-f\<close> or \<open>--file\<close>). If \<open>a\<close> is \<open>-f\<close> or \<open>--file\<close>
  and is the last argument, or \<open>a\<close> begins with \<open>-\<close> and is none of the six known options, then
  \<open>main\<close> prints the usage message and exits with status 1 before a window or a context is
  created. If \<open>a\<close> does not begin with \<open>-\<close>, it is appended to the mesh file names and parsing
  goes on with the arguments after it.
\<close>

theorem command_line_errors:
  assumes "parse_args argv0 pre initial_options = Inr opts"
  shows "((a = ''-f'' \<or> a = ''--file'') \<and> post = [] \<longrightarrow>
            main pf argv0 (pre @ a # post) inps =
              \<lparr>status = 1, stderr = [RequiresArgument a, Usage argv0],
               window = False, final = None\<rparr>)
       \<and> (begins_with_dash a \<and> \<not> known_option a \<longrightarrow>
            main pf argv0 (pre @ a # post) inps =
              \<lparr>status = 1, stderr = [UnknownOption a, Usage argv0],
               window = False, final = None\<rparr>)
       \<and> (\<not> begins_with_dash a \<longrightarrow>
            parse_args argv0 (pre @ a # post) initial_options =
              parse_args argv0 post (opts\<lparr>mesh_files := mesh_files opts @ [a]\<rparr>))"
proof -
  have p: "parse_args argv0 (pre @ a # post) initial_options = parse_args argv0 (a # post) opts"
    using assms by (rule parse_args_append)
  have nd: "\<not> known_option a" if "\<not> begins_with_dash a"
    using that by (auto simp: begins_with_dash_def known_option_def)
  show ?thesis
  proof (intro conjI impI)
    assume "(a = ''-f'' \<or> a = ''--file'') \<and> post = []"
    then have "parse_args argv0 (a # post) opts =
        Inl ([RequiresArgument a, Usage argv0], 1)"
      by (auto simp: printUsageAndExit_def)
    then show "main pf argv0 (pre @ a # post) inps =
        \<lparr>status = 1, stderr = [RequiresArgument a, Usage argv0], window = False, final = None\<rparr>"
      by (simp add: main_def p)
  next
    assume "begins_with_dash a \<and> \<not> known_option a"
    then have "parse_args argv0 (a # post) opts = Inl ([UnknownOption a, Usage argv0], 1)"
      by (simp add: printUsageAndExit_def known_option_def)
    then show "main pf argv0 (pre @ a # post) inps =
        \<lparr>status = 1, stderr = [UnknownOption a, Usage argv0], window = False, final = None\<rparr>"
      by (simp add: main_def p)
  next
    assume n: "\<not> begins_with_dash a"
    from nd [OF n] n show "parse_args argv0 (pre @ a # post) initial_options =
        parse_args argv0 post (opts\<lparr>mesh_files := mesh_files opts @ [a]\<rparr>)"
      by (simp add: p known_option_def)
  qed
qed

theorem command_line_errors_witness:
  "parse_args ''ppm'' [''-n'', ''a.obj''] initial_options =
     Inr \<lparr>use_pbo = False, out_file = [], mesh_files = [''a.obj'']\<rparr>
   \<and> main platform1 ''ppm'' [''-n'', ''a.obj'', ''--file''] [] =
       \<lparr>status = 1, stderr = [RequiresArgument ''--file'', Usage ''ppm''],
        window = False, final = None\<rparr>
   \<and> main platform1 ''ppm'' [''-n'', ''a.obj'', ''-x'', ''b.obj''] [] =
       \<lparr>status = 1, stderr = [UnknownOption ''-x'', Usage ''ppm''],
        window = False, final = None\<rparr>
   \<and> parse_args ''ppm'' [''-n'', ''a.obj'', ''b.obj''] initial_options =
       Inr \<lparr>use_pbo = False, out_file = [], mesh_files = [''a.obj'', ''b.obj'']\<rparr>"
proof -
  have h: "parse_args ''ppm'' [''-n'', ''a.obj''] initial_options =
      Inr \<lparr>use_pbo = False, out_file = [], mesh_files = [''a.obj'']\<rparr>"
    by (simp add: initial_options_def begins_with_dash_def)
  have d: "begins_with_dash ''-x''" "\<not> known_option ''-x''" "\<not> begins_with_dash ''b.obj''"
    by (simp_all add: begins_with_dash_def known_option_def)
  from command_line_errors [OF h, of "''--file''" "[]" platform1 "[]"]
  have 1: "main platform1 ''ppm'' [''-n'', ''a.obj'', ''--file''] [] =
       \<lparr>status = 1, stderr = [RequiresArgument ''--file'', Usage ''ppm''],
        window = False, final = None\<rparr>" by simp
  from command_line_errors [OF h, of "''-x''" "[''b.obj'']" platform1 "[]"] d
  have 2: "main platform1 ''ppm'' [''-n'', ''a.obj'', ''-x'', ''b.obj''] [] =
       \<lparr>status = 1, stderr = [UnknownOption ''-x'', Usage ''ppm''],
        window = False, final = None\<rparr>" by simp
  from command_line_errors [OF h, of "''b.obj''" "[]" platform1 "[]"] d
  have 3: "parse_args ''ppm'' [''-n'', ''a.obj'', ''b.obj''] initial_options =
       Inr \<lparr>use_pbo = False, out_file = [], mesh_files = [''a.obj'', ''b.obj'']\<rparr>" by simp
  from h 1 2 3 show ?thesis by blast
qed

text \<open>
  Claim C10 as stated fails for an argument that follows \<open>-f\<close>: it is taken as the output file
  name whatever it is. With \<open>-f -x\<close> and with \<open>-f -f\<close> no usage message is printed, the window
  and the context are created, and \<open>main\<close> returns 0.
\<close>

theorem unknown_option_after_file_counterexample:
  "begins_with_dash ''-x'' \<and> \<not> known_option ''-x''
   \<and> main platform1 ''ppm'' [''-f'', ''-x''] [] =
       \<lparr>status = 0, stderr = [], window = True, final = Some context1\<rparr>
   \<and> main platform1 ''ppm'' [''-f'', ''-f''] [] =
       \<lparr>status = 0, stderr = [], window = True, final = Some context1\<rparr>"
  by (simp add: begins_with_dash_def known_option_def main_def initial_options_def
      glew_ok_platform1 main_setup_platform1)

end
